theory Spec2Isabelle
  imports Main
begin

section \<open>Data model\<close>

text \<open>
  Documents of the three collections the consistency rules touch, as the schemas of
  \<^verbatim>\<open>models/task.ts\<close>, \<^verbatim>\<open>models/sprint.ts\<close> and the project model declare them.
  An ObjectId is an opaque identifier, compared only for equality (the source compares
  the \<^verbatim>\<open>toString()\<close> renderings). A \<^verbatim>\<open>Date\<close> is its number of milliseconds since the
  epoch. Story points are numbers; the records hold the integer ones. Fields that no hook,
  static or controller modelled below reads or writes are left out of the records (priority,
  dueDate, timeSpent, watchers, the sprint's name, dates and team, and the mongoose
  timestamps).
\<close>

type_synonym oid = nat

datatype task_type = Epic | Task | Subtask | Story | Bug

record task =
  t_id :: oid
  t_name :: string
  t_description :: string
  t_type :: task_type
  t_status :: string
  t_project :: oid
  t_sprint :: "oid option"
  t_reporter :: "oid option"
  t_assignee :: oid
  t_storyPoints :: int
  t_completedAt :: "int option"
  t_parentTask :: "oid option"

record sprint =
  s_id :: oid
  s_project :: oid
  s_tasks :: "oid list"
  s_completedTasks :: nat
  s_totalTasks :: nat

record board_column =
  c_id :: oid
  c_name :: string
  c_order :: nat

text \<open>
  A date path of a stored document: the field is missing, holds \<^verbatim>\<open>null\<close>, or holds a
  date, given by its time value in milliseconds.
\<close>

datatype stored_date = NoDate | NullDate | IsDate int

record project =
  p_id :: oid
  p_boardColumns :: "board_column list"
  p_startDate :: stored_date
  p_endDate :: stored_date

text \<open>
  The payload of an activity entry's old and new value: the value of one task field.
\<close>

datatype field_value =
  VString string | VType task_type | VRef "oid option" | VNumber int

record activity =
  a_user :: "oid option"
  a_action :: string
  a_taskId :: oid
  a_project :: oid
  a_details :: "string option"
  a_fieldChanged :: "string option"
  a_oldValue :: "field_value option"
  a_newValue :: "field_value option"
  a_timestamp :: int

text \<open>
  What the code throws: a mongoose ValidationError, a duplicate-key error of a unique
  index (code 11000), a CastError for a malformed id, and a plain \<^verbatim>\<open>Error(message)\<close>.

  The document store: each collection in insertion order. A write to the Activity
  collection can be refused by the storage layer; what the write of a given entry throws
  then is the parameter \<open>st_activity_fault\<close> of the store.
\<close>

datatype exn = ValidationError string | DuplicateKey | CastError | Error string

record store =
  st_tasks :: "task list"
  st_sprints :: "sprint list"
  st_projects :: "project list"
  st_users :: "oid list"
  st_activities :: "activity list"
  st_activity_fault :: "activity \<Rightarrow> exn option"

text \<open>A controller answers a failure with an HTTP status and a message.\<close>

datatype http_error = HttpError nat string

section \<open>Store primitives\<close>

definition findTask :: "store \<Rightarrow> oid \<Rightarrow> task option" where
  "findTask s i = find (\<lambda>t. t_id t = i) (st_tasks s)"

definition findSprint :: "store \<Rightarrow> oid \<Rightarrow> sprint option" where
  "findSprint s i = find (\<lambda>sp. s_id sp = i) (st_sprints s)"

definition findProject :: "store \<Rightarrow> oid \<Rightarrow> project option" where
  "findProject s i = find (\<lambda>p. p_id p = i) (st_projects s)"

text \<open>\<^verbatim>\<open>$pull\<close> removes every occurrence; \<^verbatim>\<open>$addToSet\<close> appends a value that is absent.\<close>

definition pull :: "oid \<Rightarrow> oid list \<Rightarrow> oid list" where
  "pull x xs = filter (\<lambda>y. y \<noteq> x) xs"

definition addToSet :: "oid \<Rightarrow> oid list \<Rightarrow> oid list" where
  "addToSet x xs = (if x \<in> set xs then xs else xs @ [x])"

text \<open>
  \<^verbatim>\<open>Sprint.updateMany(filter, update)\<close> and \<^verbatim>\<open>Sprint.findByIdAndUpdate(id, update)\<close> are
  query updates: they rewrite the matching stored documents and run no
  \<^verbatim>\<open>pre('save')\<close> middleware.
\<close>

definition sprint_updateMany :: "(sprint \<Rightarrow> bool) \<Rightarrow> (sprint \<Rightarrow> sprint) \<Rightarrow> store \<Rightarrow> store" where
  "sprint_updateMany P f s =
     s\<lparr>st_sprints := map (\<lambda>sp. if P sp then f sp else sp) (st_sprints s)\<rparr>"

definition sprint_findByIdAndUpdate :: "oid \<Rightarrow> (sprint \<Rightarrow> sprint) \<Rightarrow> store \<Rightarrow> store" where
  "sprint_findByIdAndUpdate i f s = sprint_updateMany (\<lambda>sp. s_id sp = i) f s"

text \<open>
  \<^verbatim>\<open>Task.countDocuments({_id: {$in: ids}, status: {$in: ['Done', 'Completed']}})\<close>:
  the stored tasks among \<open>ids\<close> whose stored status is one of the two labels.
\<close>

definition isCompletedStatus :: "string \<Rightarrow> bool" where
  "isCompletedStatus st = (st = ''Done'' \<or> st = ''Completed'')"

definition countCompleted :: "store \<Rightarrow> oid list \<Rightarrow> nat" where
  "countCompleted s ids =
     length (filter (\<lambda>t. t_id t \<in> set ids \<and> isCompletedStatus (t_status t)) (st_tasks s))"

text \<open>
  Writing a task document. The collection has the unique index on \<^verbatim>\<open>_id\<close> and the
  declared unique index \<^verbatim>\<open>{ name: 1, project: 1 }\<close>; a write that would give two
  documents the same key fails with a duplicate-key error and changes nothing.
\<close>

definition insertTask :: "task \<Rightarrow> store \<Rightarrow> exn + store" where
  "insertTask t s =
     (if list_ex (\<lambda>u. t_id u = t_id t \<or> (t_name u = t_name t \<and> t_project u = t_project t))
           (st_tasks s)
      then Inl DuplicateKey
      else Inr (s\<lparr>st_tasks := st_tasks s @ [t]\<rparr>))"

definition replaceTask :: "task \<Rightarrow> store \<Rightarrow> exn + store" where
  "replaceTask t s =
     (if list_ex (\<lambda>u. t_id u = t_id t) (st_tasks s) then
        (if list_ex (\<lambda>u. t_id u \<noteq> t_id t \<and> t_name u = t_name t \<and> t_project u = t_project t)
              (st_tasks s)
         then Inl DuplicateKey
         else Inr (s\<lparr>st_tasks := map (\<lambda>u. if t_id u = t_id t then t else u) (st_tasks s)\<rparr>))
      else Inl (Error ''No document found for query''))"

section \<open>The task schema's save middleware\<close>

text \<open>
  What \<^verbatim>\<open>isNew\<close>, \<^verbatim>\<open>isModified('status')\<close> and \<^verbatim>\<open>isModified('sprint')\<close> answer for the
  document being saved.
\<close>

record doc_state =
  isNew :: bool
  modStatus :: bool
  modSprint :: bool

text \<open>The schema's \<^verbatim>\<open>required\<close> validators on string paths reject the empty string.\<close>

definition validate_task :: "task \<Rightarrow> exn option" where
  "validate_task t =
     (if t_name t = [] then Some (ValidationError ''name'')
      else if t_description t = [] then Some (ValidationError ''description'')
      else if t_status t = [] then Some (ValidationError ''status'')
      else None)"

text \<open>First hook: default story points by type when unset or 0.\<close>

definition storyPoints_hook :: "task \<Rightarrow> task" where
  "storyPoints_hook t =
     (if t_storyPoints t = 0 then
        t\<lparr>t_storyPoints :=
            (case t_type t of Epic \<Rightarrow> 3 | Task \<Rightarrow> 2 | Subtask \<Rightarrow> 1 | Story \<Rightarrow> 4 | Bug \<Rightarrow> 5)\<rparr>
      else t)"

text \<open>Second hook: the status must name a board column of the project.\<close>

definition status_hook :: "doc_state \<Rightarrow> task \<Rightarrow> store \<Rightarrow> exn option" where
  "status_hook d t s =
     (if isNew d \<or> modStatus d then
        (case findProject s (t_project t) of
           None \<Rightarrow> Some (Error ''Project not found'')
         | Some p \<Rightarrow>
             if list_ex (\<lambda>column. c_name column = t_status t) (p_boardColumns p) then None
             else Some (Error ''Invalid status for this project. Must be one of the project board columns.''))
      else None)"

text \<open>
  Third hook: when status or sprint changed and the task has a sprint that exists, the
  sprint's \<^verbatim>\<open>completedTasks\<close> is recounted from the stored tasks and written, and the
  task's \<^verbatim>\<open>completedAt\<close> is set or cleared. The count reads the collection before this
  document is written.
\<close>

definition sprint_stats_hook :: "int \<Rightarrow> doc_state \<Rightarrow> task \<Rightarrow> store \<Rightarrow> task \<times> store" where
  "sprint_stats_hook now d t s =
     (if modStatus d \<or> modSprint d then
        (case t_sprint t of
           None \<Rightarrow> (t, s)
         | Some sid \<Rightarrow>
             (case findSprint s sid of
                None \<Rightarrow> (t, s)
              | Some sp \<Rightarrow>
                  let isCompleted = isCompletedStatus (t_status t);
                      completedCount = countCompleted s (s_tasks sp);
                      s' = sprint_findByIdAndUpdate sid
                             (\<lambda>x. x\<lparr>s_completedTasks := completedCount\<rparr>) s
                  in (if isCompleted \<and> t_completedAt t = None
                        then t\<lparr>t_completedAt := Some now\<rparr>
                      else if \<not> isCompleted \<and> t_completedAt t \<noteq> None
                        then t\<lparr>t_completedAt := None\<rparr>
                      else t, s')))
      else (t, s))"

text \<open>
  Fourth hook: an epic's parent is cleared; a task's parent, if any, must be an epic; a
  subtask must have a parent, and it must be a task.
\<close>

definition hierarchy_hook :: "task \<Rightarrow> store \<Rightarrow> exn + task" where
  "hierarchy_hook t0 s =
     (let t = (if t_type t0 = Epic \<and> t_parentTask t0 \<noteq> None
               then t0\<lparr>t_parentTask := None\<rparr> else t0)
      in case t_type t of
           Task \<Rightarrow>
             (case t_parentTask t of
                None \<Rightarrow> Inr t
              | Some pid \<Rightarrow>
                  (case findTask s pid of
                     None \<Rightarrow> Inl (Error ''Tasks can only have epics as parents'')
                   | Some parent \<Rightarrow>
                       if t_type parent = Epic then Inr t
                       else Inl (Error ''Tasks can only have epics as parents'')))
         | Subtask \<Rightarrow>
             (case t_parentTask t of
                None \<Rightarrow> Inl (Error ''Subtasks must have a parent task'')
              | Some pid \<Rightarrow>
                  (case findTask s pid of
                     None \<Rightarrow> Inl (Error ''Subtasks can only have tasks as parents'')
                   | Some parent \<Rightarrow>
                       if t_type parent = Task then Inr t
                       else Inl (Error ''Subtasks can only have tasks as parents'')))
         | _ \<Rightarrow> Inr t)"

text \<open>Fifth hook: when the sprint field was cleared, pull the task from every sprint.\<close>

definition sprint_cleared_hook :: "doc_state \<Rightarrow> task \<Rightarrow> store \<Rightarrow> store" where
  "sprint_cleared_hook d t s =
     (if modSprint d \<and> t_sprint t = None then
        sprint_updateMany (\<lambda>sp. t_id t \<in> set (s_tasks sp))
          (\<lambda>sp. sp\<lparr>s_tasks := pull (t_id t) (s_tasks sp)\<rparr>) s
      else s)"

text \<open>
  \<^verbatim>\<open>task.save()\<close>: validation, then the five hooks in the order they are registered, then
  the write. A hook that fails stops the save; what an earlier hook wrote to the sprint
  collection stays written.
\<close>

definition task_save :: "int \<Rightarrow> doc_state \<Rightarrow> task \<Rightarrow> store \<Rightarrow> (exn + task) \<times> store" where
  "task_save now d t s =
     (case validate_task t of
        Some e \<Rightarrow> (Inl e, s)
      | None \<Rightarrow>
          let t1 = storyPoints_hook t in
          (case status_hook d t1 s of
             Some e \<Rightarrow> (Inl e, s)
           | None \<Rightarrow>
               (case sprint_stats_hook now d t1 s of
                  (t2, s2) \<Rightarrow>
                    (case hierarchy_hook t2 s2 of
                       Inl e \<Rightarrow> (Inl e, s2)
                     | Inr t3 \<Rightarrow>
                         let s3 = sprint_cleared_hook d t3 s2 in
                         (case (if isNew d then insertTask t3 s3 else replaceTask t3 s3) of
                            Inl e \<Rightarrow> (Inl e, s3)
                          | Inr s4 \<Rightarrow> (Inr t3, s4))))))"

section \<open>Moving a task to a sprint\<close>

text \<open>
  \<^verbatim>\<open>TaskSchema.statics.moveToSprint(taskId, sprintId)\<close>. A null (or empty) sprint id is
  \<open>None\<close>. Assigning \<^verbatim>\<open>task.sprint\<close> marks the path modified when the value changes.
\<close>

definition moveToSprint :: "int \<Rightarrow> oid \<Rightarrow> oid option \<Rightarrow> store \<Rightarrow> (exn + task) \<times> store" where
  "moveToSprint now taskId sprintId s =
     (case findTask s taskId of
        None \<Rightarrow> (Inl (Error ''Task not found''), s)
      | Some task \<Rightarrow>
          (case sprintId of
             Some sid \<Rightarrow>
               (case findSprint s sid of
                  None \<Rightarrow> (Inl (Error ''Sprint not found''), s)
                | Some sp \<Rightarrow>
                    if t_project task \<noteq> s_project sp
                    then (Inl (Error ''Task and sprint must belong to the same project''), s)
                    else
                      let s1 = sprint_updateMany
                                 (\<lambda>x. taskId \<in> set (s_tasks x) \<and> s_id x \<noteq> sid)
                                 (\<lambda>x. x\<lparr>s_tasks := pull taskId (s_tasks x)\<rparr>) s;
                          s2 = sprint_findByIdAndUpdate sid
                                 (\<lambda>x. x\<lparr>s_tasks := addToSet taskId (s_tasks x)\<rparr>) s1
                      in task_save now
                           \<lparr>isNew = False, modStatus = False, modSprint = (t_sprint task \<noteq> Some sid)\<rparr>
                           (task\<lparr>t_sprint := Some sid\<rparr>) s2)
           | None \<Rightarrow>
               let s1 = sprint_updateMany (\<lambda>x. taskId \<in> set (s_tasks x))
                          (\<lambda>x. x\<lparr>s_tasks := pull taskId (s_tasks x)\<rparr>) s
               in task_save now
                    \<lparr>isNew = False, modStatus = False, modSprint = (t_sprint task \<noteq> None)\<rparr>
                    (task\<lparr>t_sprint := None\<rparr>) s1))"

section \<open>The activity log\<close>

text \<open>
  The validators of the Activity schema: \<^verbatim>\<open>user\<close>, \<^verbatim>\<open>action\<close>, \<^verbatim>\<open>taskId\<close> and
  \<^verbatim>\<open>project\<close> are required, and the action is one of the schema's enum.
\<close>

definition activity_actions :: "string list" where
  "activity_actions =
     [''created'', ''updated'', ''deleted'', ''commented'', ''assigned'', ''changed status'',
      ''attached'', ''added watcher'']"

definition validate_activity :: "activity \<Rightarrow> exn option" where
  "validate_activity a =
     (if a_user a = None then Some (ValidationError ''user'')
      else if a_action a \<in> set activity_actions then None
      else Some (ValidationError ''action''))"

text \<open>
  Saving an entry (\<^verbatim>\<open>activity.save()\<close>, \<^verbatim>\<open>Activity.create\<close>): validation, then the
  write, which appends the entry or throws.
\<close>

definition activity_write :: "activity \<Rightarrow> store \<Rightarrow> exn + store" where
  "activity_write a s =
     (case validate_activity a of
        Some e \<Rightarrow> Inl e
      | None \<Rightarrow>
          (case st_activity_fault s a of
             None \<Rightarrow> Inr (s\<lparr>st_activities := st_activities s @ [a]\<rparr>)
           | Some e \<Rightarrow> Inl e))"

text \<open>
  \<^verbatim>\<open>logActivity\<close> of the task controller: the entry is stamped with the current time and
  saved inside a try block; the catch returns false.
\<close>

definition logActivity ::
  "int \<Rightarrow> oid option \<Rightarrow> string \<Rightarrow> oid \<Rightarrow> oid \<Rightarrow> string option \<Rightarrow> string option \<Rightarrow>
   field_value option \<Rightarrow> field_value option \<Rightarrow> store \<Rightarrow> bool \<times> store" where
  "logActivity now userId action taskId projectId details fieldChanged oldValue newValue s =
     (let activity = \<lparr>a_user = userId, a_action = action, a_taskId = taskId,
                       a_project = projectId, a_details = details,
                       a_fieldChanged = fieldChanged, a_oldValue = oldValue,
                       a_newValue = newValue, a_timestamp = now\<rparr>
      in case activity_write activity s of
           Inr s' \<Rightarrow> (True, s')
         | Inl error \<Rightarrow> (False, s))"

section \<open>The task controller\<close>

text \<open>
  An id as a request carries it: missing (undefined, null or the empty string, all falsy),
  a string that \<^verbatim>\<open>ObjectId.isValid\<close> rejects, or a valid id.
\<close>

datatype req_id = NoId | BadId | GoodId oid

text \<open>The catch block of \<^verbatim>\<open>createTask\<close> and \<^verbatim>\<open>updateTask\<close>.\<close>

definition respond_error :: "exn \<Rightarrow> http_error" where
  "respond_error e =
     (case e of ValidationError m \<Rightarrow> HttpError 400 m | _ \<Rightarrow> HttpError 500 ''Server error'')"

subsection \<open>createTask\<close>

text \<open>
  The request body. An absent name, description or status is the empty string (the code
  tests them for falsiness only); an absent type or storyPoints is \<open>None\<close>.
\<close>

record create_req =
  r_name :: string
  r_description :: string
  r_type :: "task_type option"
  r_status :: string
  r_storyPoints :: "int option"
  r_assignee :: req_id
  r_reporter :: req_id
  r_parentTask :: req_id
  r_project :: req_id

text \<open>
  The status the task is created with. The project schema declares no \<^verbatim>\<open>workflow\<close>
  path, so \<^verbatim>\<open>projectDoc.workflow?.statuses\<close> is undefined and the branch on
  \<^verbatim>\<open>boardColumns\<close> decides.
\<close>

definition create_status :: "string \<Rightarrow> project \<Rightarrow> string" where
  "create_status status projectDoc =
     (let defaultStatus = ''To Do'';
          taskStatus = (if status = [] then defaultStatus else status)
      in if list_ex (\<lambda>column. c_name column = taskStatus) (p_boardColumns projectDoc)
         then taskStatus
         else (case p_boardColumns projectDoc of
                 [] \<Rightarrow> defaultStatus
               | c # _ \<Rightarrow> if c_name c = [] then defaultStatus else c_name c))"

text \<open>The controller's parent checks; \<open>Some\<close> is the response that ends the request.\<close>

definition parent_check :: "create_req \<Rightarrow> store \<Rightarrow> http_error option" where
  "parent_check req s =
     (case r_parentTask req of
        NoId \<Rightarrow>
          if r_type req = Some Subtask
          then Some (HttpError 400 ''Subtasks must have a parent task'')
          else None
      | BadId \<Rightarrow> Some (HttpError 400 ''Invalid parent task ID'')
      | GoodId pid \<Rightarrow>
          (case findTask s pid of
             None \<Rightarrow> Some (HttpError 404 ''Parent task not found'')
           | Some parentTaskDoc \<Rightarrow>
               if r_type req = Some Subtask \<and> t_type parentTaskDoc \<noteq> Task
               then Some (HttpError 400 ''Subtasks must have tasks as parents'')
               else if (r_type req = Some Task \<or> r_type req = Some Story)
                       \<and> t_type parentTaskDoc \<noteq> Epic
               then Some (HttpError 400 ''Tasks and stories must have epics as parents'')
               else if r_type req = Some Epic
               then Some (HttpError 400 ''Epics cannot have parent tasks'')
               else None))"

definition new_task :: "oid \<Rightarrow> create_req \<Rightarrow> string \<Rightarrow> oid \<Rightarrow> oid \<Rightarrow> task" where
  "new_task newId req taskStatus pid aid =
     \<lparr>t_id = newId, t_name = r_name req, t_description = r_description req,
      t_type = (case r_type req of None \<Rightarrow> Task | Some ty \<Rightarrow> ty),
      t_status = taskStatus, t_project = pid, t_sprint = None,
      t_reporter = (case r_reporter req of GoodId r \<Rightarrow> Some r | _ \<Rightarrow> None),
      t_assignee = aid,
      t_storyPoints = (case r_storyPoints req of None \<Rightarrow> 0 | Some n \<Rightarrow> n),
      t_completedAt = None,
      t_parentTask = (case r_parentTask req of GoodId p \<Rightarrow> Some p | _ \<Rightarrow> None)\<rparr>"

text \<open>
  \<^verbatim>\<open>createTask\<close>; \<open>newId\<close> is the ObjectId the new document gets and \<open>userId\<close> the
  authenticated user, if any.
\<close>

definition createTask ::
  "int \<Rightarrow> oid \<Rightarrow> oid option \<Rightarrow> create_req \<Rightarrow> store \<Rightarrow> (http_error + task) \<times> store" where
  "createTask now newId userId req s =
     (if r_name req = [] \<or> r_description req = [] \<or> r_project req = NoId
         \<or> r_assignee req = NoId
      then (Inl (HttpError 400 ''Name, description, project, and assignee are required''), s)
      else
        (case r_project req of
           GoodId pid \<Rightarrow>
             (case findProject s pid of
                None \<Rightarrow> (Inl (HttpError 404 ''Project not found''), s)
              | Some projectDoc \<Rightarrow>
                  let taskStatus = create_status (r_status req) projectDoc in
                  (case r_assignee req of
                     GoodId aid \<Rightarrow>
                       if aid \<in> set (st_users s) then
                         (if r_reporter req = BadId
                          then (Inl (HttpError 400 ''Invalid reporter ID''), s)
                          else
                            (case parent_check req s of
                               Some resp \<Rightarrow> (Inl resp, s)
                             | None \<Rightarrow>
                                 (case task_save now
                                         \<lparr>isNew = True, modStatus = True, modSprint = False\<rparr>
                                         (new_task newId req taskStatus pid aid) s of
                                    (Inl e, s1) \<Rightarrow> (Inl (respond_error e), s1)
                                  | (Inr savedTask, s1) \<Rightarrow>
                                      (case activity_write
                                              \<lparr>a_user = (case userId of Some u \<Rightarrow> Some u
                                                          | None \<Rightarrow> Some aid),
                                               a_action = ''created'', a_taskId = newId,
                                               a_project = pid, a_details = None,
                                               a_fieldChanged = None, a_oldValue = None,
                                               a_newValue = None, a_timestamp = now\<rparr> s1 of
                                         Inl e \<Rightarrow> (Inl (respond_error e), s1)
                                       | Inr s2 \<Rightarrow> (Inr savedTask, s2)))))
                       else (Inl (HttpError 404 ''Assignee not found''), s)
                   | _ \<Rightarrow> (Inl (HttpError 400 ''Invalid assignee ID''), s)))
         | _ \<Rightarrow> (Inl (HttpError 400 ''Invalid project ID''), s)))"

subsection \<open>updateTask\<close>

text \<open>
  The request body of an update is an object of field values; it is modelled as the list
  of its entries in key order (the keys of an object are distinct).
\<close>

datatype field_update =
    SetName string
  | SetDescription string
  | SetType task_type
  | SetStatus string
  | SetProject oid
  | SetSprint "oid option"
  | SetParentTask "oid option"
  | SetAssignee oid
  | SetStoryPoints int

fun field_key :: "field_update \<Rightarrow> string" where
  "field_key (SetName _) = ''name''"
| "field_key (SetDescription _) = ''description''"
| "field_key (SetType _) = ''type''"
| "field_key (SetStatus _) = ''status''"
| "field_key (SetProject _) = ''project''"
| "field_key (SetSprint _) = ''sprint''"
| "field_key (SetParentTask _) = ''parentTask''"
| "field_key (SetAssignee _) = ''assignee''"
| "field_key (SetStoryPoints _) = ''storyPoints''"

fun field_new :: "field_update \<Rightarrow> field_value" where
  "field_new (SetName v) = VString v"
| "field_new (SetDescription v) = VString v"
| "field_new (SetType v) = VType v"
| "field_new (SetStatus v) = VString v"
| "field_new (SetProject v) = VRef (Some v)"
| "field_new (SetSprint v) = VRef v"
| "field_new (SetParentTask v) = VRef v"
| "field_new (SetAssignee v) = VRef (Some v)"
| "field_new (SetStoryPoints v) = VNumber v"

text \<open>\<^verbatim>\<open>existingTask.get(key)\<close>.\<close>

fun field_old :: "task \<Rightarrow> field_update \<Rightarrow> field_value" where
  "field_old t (SetName _) = VString (t_name t)"
| "field_old t (SetDescription _) = VString (t_description t)"
| "field_old t (SetType _) = VType (t_type t)"
| "field_old t (SetStatus _) = VString (t_status t)"
| "field_old t (SetProject _) = VRef (Some (t_project t))"
| "field_old t (SetSprint _) = VRef (t_sprint t)"
| "field_old t (SetParentTask _) = VRef (t_parentTask t)"
| "field_old t (SetAssignee _) = VRef (Some (t_assignee t))"
| "field_old t (SetStoryPoints _) = VNumber (t_storyPoints t)"

text \<open>\<^verbatim>\<open>$set\<close> of one entry.\<close>

fun apply_update :: "field_update \<Rightarrow> task \<Rightarrow> task" where
  "apply_update (SetName v) t = t\<lparr>t_name := v\<rparr>"
| "apply_update (SetDescription v) t = t\<lparr>t_description := v\<rparr>"
| "apply_update (SetType v) t = t\<lparr>t_type := v\<rparr>"
| "apply_update (SetStatus v) t = t\<lparr>t_status := v\<rparr>"
| "apply_update (SetProject v) t = t\<lparr>t_project := v\<rparr>"
| "apply_update (SetSprint v) t = t\<lparr>t_sprint := v\<rparr>"
| "apply_update (SetParentTask v) t = t\<lparr>t_parentTask := v\<rparr>"
| "apply_update (SetAssignee v) t = t\<lparr>t_assignee := v\<rparr>"
| "apply_update (SetStoryPoints v) t = t\<lparr>t_storyPoints := v\<rparr>"

text \<open>
  \<^verbatim>\<open>runValidators: true\<close> runs the schema validators of the paths being set: the
  \<^verbatim>\<open>required\<close> validators of the string paths. No \<^verbatim>\<open>pre('save')\<close> hook is a validator.
\<close>

fun validate_update :: "field_update \<Rightarrow> exn option" where
  "validate_update (SetName v) = (if v = [] then Some (ValidationError ''name'') else None)"
| "validate_update (SetDescription v) =
     (if v = [] then Some (ValidationError ''description'') else None)"
| "validate_update (SetStatus v) = (if v = [] then Some (ValidationError ''status'') else None)"
| "validate_update _ = None"

fun validate_updates :: "field_update list \<Rightarrow> exn option" where
  "validate_updates [] = None"
| "validate_updates (u # us) =
     (case validate_update u of Some e \<Rightarrow> Some e | None \<Rightarrow> validate_updates us)"

text \<open>
  \<^verbatim>\<open>Task.findByIdAndUpdate(id, {$set: updateData}, {new: true, runValidators: true})\<close>:
  a query update. It runs the update validators and writes; the \<^verbatim>\<open>pre('save')\<close>
  middleware of the schema is document middleware and is not run.
\<close>

definition task_findByIdAndUpdate ::
  "oid \<Rightarrow> field_update list \<Rightarrow> store \<Rightarrow> (exn + task option) \<times> store" where
  "task_findByIdAndUpdate i updateData s =
     (case validate_updates updateData of
        Some e \<Rightarrow> (Inl e, s)
      | None \<Rightarrow>
          (case findTask s i of
             None \<Rightarrow> (Inr None, s)
           | Some t \<Rightarrow>
               let t' = fold apply_update updateData t in
               (case replaceTask t' s of
                  Inl e \<Rightarrow> (Inl e, s)
                | Inr s' \<Rightarrow> (Inr (Some t'), s'))))"

text \<open>The entries whose value differs from the stored one.\<close>

definition changed_fields :: "task \<Rightarrow> field_update list \<Rightarrow> field_update list" where
  "changed_fields existingTask updateData =
     filter (\<lambda>u. field_old existingTask u \<noteq> field_new u) updateData"

text \<open>The logging loop: one entry per changed field; the result of the call is ignored.\<close>

fun log_changes :: "int \<Rightarrow> oid \<Rightarrow> task \<Rightarrow> field_update list \<Rightarrow> store \<Rightarrow> store" where
  "log_changes now actorId existingTask [] s = s"
| "log_changes now actorId existingTask (u # us) s =
     (let field = field_key u;
          action = (if field = ''status'' then ''changed status''
                    else if field = ''assignee'' then ''assigned'' else ''updated'')
      in log_changes now actorId existingTask us
           (snd (logActivity now (Some actorId) action (t_id existingTask)
                   (t_project existingTask) None (Some field)
                   (Some (field_old existingTask u)) (Some (field_new u)) s)))"

text \<open>
  \<^verbatim>\<open>updateTask\<close>. The actor is the authenticated user or else the task's assignee, which
  the schema requires, so the "no valid user ID" answer cannot arise for a stored task.
\<close>

definition updateTask ::
  "int \<Rightarrow> req_id \<Rightarrow> oid option \<Rightarrow> field_update list \<Rightarrow> store \<Rightarrow> (http_error + task) \<times> store" where
  "updateTask now rid userId updateData s =
     (case rid of
        GoodId i \<Rightarrow>
          (case findTask s i of
             None \<Rightarrow> (Inl (HttpError 404 ''Task not found''), s)
           | Some existingTask \<Rightarrow>
               let actorId = (case userId of Some u \<Rightarrow> u | None \<Rightarrow> t_assignee existingTask);
                   changes = changed_fields existingTask updateData
               in (case task_findByIdAndUpdate i updateData s of
                     (Inl e, s1) \<Rightarrow> (Inl (respond_error e), s1)
                   | (Inr None, s1) \<Rightarrow> (Inl (HttpError 404 ''Task not found after update''), s1)
                   | (Inr (Some updatedTask), s1) \<Rightarrow>
                       (Inr updatedTask, log_changes now actorId existingTask changes s1)))
      | _ \<Rightarrow> (Inl (respond_error CastError), s))"

subsection \<open>deleteTask\<close>

text \<open>
  \<^verbatim>\<open>Task.findByIdAndDelete(id)\<close> is a query: it removes the stored document and runs no
  document middleware.
\<close>

definition task_findByIdAndDelete :: "oid \<Rightarrow> store \<Rightarrow> store" where
  "task_findByIdAndDelete i s = s\<lparr>st_tasks := filter (\<lambda>t. t_id t \<noteq> i) (st_tasks s)\<rparr>"

text \<open>
  The schema's \<^verbatim>\<open>pre('deleteOne', { document: true, query: false })\<close> hook, and the
  document's \<^verbatim>\<open>deleteOne()\<close> that runs it.
\<close>

definition deleteOne_hook :: "task \<Rightarrow> store \<Rightarrow> store" where
  "deleteOne_hook t s =
     sprint_updateMany (\<lambda>sp. t_id t \<in> set (s_tasks sp))
       (\<lambda>sp. sp\<lparr>s_tasks := pull (t_id t) (s_tasks sp)\<rparr>) s"

definition task_deleteOne :: "task \<Rightarrow> store \<Rightarrow> store" where
  "task_deleteOne t s = task_findByIdAndDelete (t_id t) (deleteOne_hook t s)"

definition deleteTask ::
  "int \<Rightarrow> req_id \<Rightarrow> oid option \<Rightarrow> store \<Rightarrow> (http_error + string) \<times> store" where
  "deleteTask now rid userId s =
     (case rid of
        GoodId i \<Rightarrow>
          (case findTask s i of
             None \<Rightarrow> (Inl (HttpError 404 ''Task not found''), s)
           | Some task \<Rightarrow>
               (case find (\<lambda>t. t_parentTask t = Some i) (st_tasks s) of
                  Some hasChildren \<Rightarrow>
                    (Inl (HttpError 400
                       ''Cannot delete a task that has child tasks. Delete children first.''), s)
                | None \<Rightarrow>
                    let projectId = t_project task;
                        s1 = task_findByIdAndDelete i s
                    in (Inr ''Task deleted successfully'',
                        snd (logActivity now userId ''deleted'' i projectId
                               None None None None s1))))
      | _ \<Rightarrow> (Inl (HttpError 400 ''Invalid task ID''), s))"

section \<open>The sprint schema and controller\<close>

text \<open>
  The sprint schema's \<^verbatim>\<open>pre('save')\<close> hook "Update task counts": when the document's
  \<^verbatim>\<open>tasks\<close> path is modified, both counters are recomputed.
\<close>

definition sprint_count_hook :: "bool \<Rightarrow> sprint \<Rightarrow> store \<Rightarrow> sprint" where
  "sprint_count_hook modTasks sp s =
     (if modTasks then
        sp\<lparr>s_totalTasks := length (s_tasks sp),
           s_completedTasks := countCompleted s (s_tasks sp)\<rparr>
      else sp)"

text \<open>\<^verbatim>\<open>$addToSet\<close> with \<^verbatim>\<open>$each\<close>, and \<^verbatim>\<open>$pullAll\<close>.\<close>

fun addToSet_each :: "oid list \<Rightarrow> oid list \<Rightarrow> oid list" where
  "addToSet_each [] xs = xs"
| "addToSet_each (y # ys) xs = addToSet_each ys (addToSet y xs)"

definition pullAll :: "oid list \<Rightarrow> oid list \<Rightarrow> oid list" where
  "pullAll ys xs = filter (\<lambda>x. x \<notin> set ys) xs"

text \<open>
  \<^verbatim>\<open>addTasksToSprint\<close> and \<^verbatim>\<open>removeTasksFromSprint\<close> of the sprint controller. The task
  ids of the body are valid ids; a missing or empty array is \<open>[]\<close>. The answer carries
  the sprint as \<^verbatim>\<open>findByIdAndUpdate\<close> returns it with \<^verbatim>\<open>new: true\<close>.
\<close>

definition addTasksToSprint ::
  "req_id \<Rightarrow> oid list \<Rightarrow> store \<Rightarrow> (http_error + sprint option) \<times> store" where
  "addTasksToSprint rid taskIds s =
     (if taskIds = [] then (Inl (HttpError 400 ''Please provide an array of task IDs''), s)
      else
        (case rid of
           GoodId sprintId \<Rightarrow>
             (case findSprint s sprintId of
                None \<Rightarrow> (Inl (HttpError 404 ''Sprint not found''), s)
              | Some sp \<Rightarrow>
                  let found = filter (\<lambda>t. t_id t \<in> set taskIds \<and> t_project t = s_project sp)
                                (st_tasks s)
                  in if length found \<noteq> length taskIds
                     then (Inl (HttpError 400
                             ''Some tasks were not found or do not belong to the project''), s)
                     else
                       let s' = sprint_findByIdAndUpdate sprintId
                                  (\<lambda>x. x\<lparr>s_tasks := addToSet_each taskIds (s_tasks x)\<rparr>) s
                       in (Inr (findSprint s' sprintId), s'))
         | _ \<Rightarrow> (Inl (HttpError 500 ''Server Error''), s)))"

definition removeTasksFromSprint ::
  "req_id \<Rightarrow> oid list \<Rightarrow> store \<Rightarrow> (http_error + sprint option) \<times> store" where
  "removeTasksFromSprint rid taskIds s =
     (if taskIds = [] then (Inl (HttpError 400 ''Please provide an array of task IDs''), s)
      else
        (case rid of
           GoodId sprintId \<Rightarrow>
             (case findSprint s sprintId of
                None \<Rightarrow> (Inl (HttpError 404 ''Sprint not found''), s)
              | Some sp \<Rightarrow>
                  let s' = sprint_findByIdAndUpdate sprintId
                             (\<lambda>x. x\<lparr>s_tasks := pullAll taskIds (s_tasks x)\<rparr>) s
                  in (Inr (findSprint s' sprintId), s'))
         | _ \<Rightarrow> (Inl (HttpError 500 ''Server Error''), s)))"

text \<open>The two counters of a sprint agree with its task list.\<close>

definition counters_consistent :: "sprint \<Rightarrow> bool" where
  "counters_consistent sp =
     (s_completedTasks sp \<le> s_totalTasks sp \<and> s_totalTasks sp = length (s_tasks sp))"

section \<open>The project schema and the board columns\<close>

text \<open>
  The project schema's \<^verbatim>\<open>pre('save')\<close> hook: a project saved with no board column gets
  the four default columns. \<open>newId k\<close> is the ObjectId the \<open>k\<close>-th new subdocument gets.
\<close>

definition default_boardColumns :: "(nat \<Rightarrow> oid) \<Rightarrow> board_column list" where
  "default_boardColumns newId =
     [\<lparr>c_id = newId 0, c_name = ''To Do'', c_order = 0\<rparr>,
      \<lparr>c_id = newId 1, c_name = ''In Progress'', c_order = 1\<rparr>,
      \<lparr>c_id = newId 2, c_name = ''In Review'', c_order = 2\<rparr>,
      \<lparr>c_id = newId 3, c_name = ''Done'', c_order = 3\<rparr>]"

definition boardColumns_hook :: "(nat \<Rightarrow> oid) \<Rightarrow> project \<Rightarrow> project" where
  "boardColumns_hook newId p =
     (if p_boardColumns p = [] then p\<lparr>p_boardColumns := default_boardColumns newId\<rparr> else p)"

text \<open>
  \<^verbatim>\<open>project.save()\<close> of a document read from the store: the hook, then the write. The
  stored documents satisfy the schema's validators, which every write path runs, so the
  validation of the saved document passes.
\<close>

definition project_save :: "(nat \<Rightarrow> oid) \<Rightarrow> project \<Rightarrow> store \<Rightarrow> project \<times> store" where
  "project_save newId p s =
     (let p' = boardColumns_hook newId p
      in (p', s\<lparr>st_projects := map (\<lambda>q. if p_id q = p_id p' then p' else q) (st_projects s)\<rparr>))"

text \<open>\<^verbatim>\<open>Array.prototype.findIndex\<close>: \<open>None\<close> is the answer -1.\<close>

fun findIndex :: "('a \<Rightarrow> bool) \<Rightarrow> 'a list \<Rightarrow> nat option" where
  "findIndex P [] = None"
| "findIndex P (x # xs) = (if P x then Some 0 else map_option Suc (findIndex P xs))"

text \<open>\<^verbatim>\<open>splice(i, 1)\<close>, and the \<^verbatim>\<open>map((col, idx) => ({...col, order: idx}))\<close> that follows.\<close>

definition splice1 :: "nat \<Rightarrow> 'a list \<Rightarrow> 'a list" where
  "splice1 i xs = take i xs @ drop (Suc i) xs"

definition renumber :: "board_column list \<Rightarrow> board_column list" where
  "renumber cols = map (\<lambda>(idx, col). col\<lparr>c_order := idx\<rparr>) (enumerate 0 cols)"

text \<open>
  \<^verbatim>\<open>removeBoardColumn\<close> of the project controller; the answer carries the project's
  columns after the save. A malformed project id makes \<^verbatim>\<open>findById\<close> throw, which the
  error handler answers with status 500.
\<close>

definition removeBoardColumn ::
  "(nat \<Rightarrow> oid) \<Rightarrow> req_id \<Rightarrow> oid \<Rightarrow> store \<Rightarrow> (http_error + board_column list) \<times> store" where
  "removeBoardColumn newId rid columnId s =
     (case rid of
        GoodId pid \<Rightarrow>
          (case findProject s pid of
             None \<Rightarrow> (Inl (HttpError 404 ''Project not found''), s)
           | Some project \<Rightarrow>
               (case findIndex (\<lambda>column. c_id column = columnId) (p_boardColumns project) of
                  None \<Rightarrow> (Inl (HttpError 404 ''Column not found''), s)
                | Some columnIndex \<Rightarrow>
                    (case project_save newId
                            (project\<lparr>p_boardColumns :=
                                renumber (splice1 columnIndex (p_boardColumns project))\<rparr>) s of
                       (saved, s') \<Rightarrow> (Inr (p_boardColumns saved), s'))))
      | _ \<Rightarrow> (Inl (HttpError 500 ''Cast to ObjectId failed''), s))"

section \<open>JavaScript numbers and dates\<close>

text \<open>
  Story points are JavaScript numbers, that is doubles, and the model stores the integer
  ones. The sum and the difference of two doubles are the integer sum and difference as long
  as the operands and the result are integers of magnitude at most \<open>2^53\<close>. The model
  follows a number exactly within that range; of a number outside it (a rounded sum, an
  infinity, NaN) it keeps only that it is some number, \<open>Inexact\<close>, of which nothing more is
  known: not its value and not whether it is truthy.
\<close>

datatype jsnum = Exact int | Inexact

definition safe_int :: "int \<Rightarrow> bool" where
  "safe_int n = (- 9007199254740992 \<le> n \<and> n \<le> 9007199254740992)"

definition js_add :: "jsnum \<Rightarrow> jsnum \<Rightarrow> jsnum" where
  "js_add a b =
     (case a of
        Inexact \<Rightarrow> Inexact
      | Exact x \<Rightarrow>
          (case b of
             Inexact \<Rightarrow> Inexact
           | Exact y \<Rightarrow>
               if safe_int x \<and> safe_int y \<and> safe_int (x + y) then Exact (x + y) else Inexact))"

definition js_sub :: "jsnum \<Rightarrow> jsnum \<Rightarrow> jsnum" where
  "js_sub a b =
     (case a of
        Inexact \<Rightarrow> Inexact
      | Exact x \<Rightarrow>
          (case b of
             Inexact \<Rightarrow> Inexact
           | Exact y \<Rightarrow>
               if safe_int x \<and> safe_int y \<and> safe_int (x - y) then Exact (x - y) else Inexact))"

text \<open>\<^verbatim>\<open>v || 0\<close> for a number or \<^verbatim>\<open>undefined\<close>.\<close>

definition or_zero :: "jsnum option \<Rightarrow> jsnum" where
  "or_zero v = (case v of None \<Rightarrow> Exact 0 | Some n \<Rightarrow> n)"

text \<open>
  A date is its time value, the milliseconds since the epoch in UTC, an integer of magnitude
  at most \<open>8.64 * 10^15\<close>; \<^verbatim>\<open>TimeClip\<close> makes any other time value the invalid date,
  here \<open>None\<close>, which compares false with every date. Stored dates are valid: the cast of
  the schema refuses any other. The key of a date is
  \<^verbatim>\<open>toISOString().split('T')[0]\<close>, the UTC calendar day; two dates have the same key
  exactly when they have the same day number, which stands for the key.
\<close>

definition DAY :: int where
  "DAY = 86400000"

definition dateKey :: "int \<Rightarrow> int" where
  "dateKey ms = ms div DAY"

definition maxTime :: int where
  "maxTime = 8640000000000000"

definition timeClip :: "int \<Rightarrow> int option" where
  "timeClip t = (if - maxTime \<le> t \<and> t \<le> maxTime then Some t else None)"

text \<open>
  The time zone of the server: the offset of local time from UTC in milliseconds, at a UTC
  time value and at a local time value (\<^verbatim>\<open>LocalTZA(t, true)\<close> and
  \<^verbatim>\<open>LocalTZA(t, false)\<close> of the language specification). The two differ around a
  change of the offset, as daylight saving time makes.
\<close>

record timezone =
  localTZA_utc :: "int \<Rightarrow> int"
  localTZA_local :: "int \<Rightarrow> int"

text \<open>
  \<^verbatim>\<open>currentDate.setDate(currentDate.getDate() + 1)\<close>: the date is taken to local time,
  moved to the same time of day on the next calendar day, and taken back to UTC.
\<close>

definition setDate_nextDay :: "timezone \<Rightarrow> int \<Rightarrow> int option" where
  "setDate_nextDay tz t =
     (let local = t + localTZA_utc tz t;
          newDate = local + DAY
      in timeClip (newDate - localTZA_local tz newDate))"

section \<open>The burndown series\<close>

text \<open>The \<^verbatim>\<open>forEach\<close> that groups the points of the completed tasks by day.\<close>

definition add_points :: "task \<Rightarrow> (int \<rightharpoonup> jsnum) \<Rightarrow> (int \<rightharpoonup> jsnum)" where
  "add_points task pointsByDate =
     (case t_completedAt task of
        None \<Rightarrow> pointsByDate
      | Some c \<Rightarrow>
          pointsByDate(dateKey c \<mapsto>
            js_add (or_zero (pointsByDate (dateKey c))) (Exact (t_storyPoints task))))"

definition group_points :: "task list \<Rightarrow> (int \<rightharpoonup> jsnum)" where
  "group_points completedTasks = fold add_points completedTasks Map.empty"

text \<open>
  \<^verbatim>\<open>if (pointsByDate[dateKey]) remainingPoints -= pointsByDate[dateKey]\<close>: a day without
  an entry, or with the entry 0, leaves the remaining points as they are.
\<close>

definition subtract_day :: "jsnum option \<Rightarrow> jsnum \<Rightarrow> jsnum" where
  "subtract_day v remainingPoints =
     (case v of
        None \<Rightarrow> remainingPoints
      | Some n \<Rightarrow>
          (case n of
             Inexact \<Rightarrow> Inexact
           | Exact x \<Rightarrow> if x = 0 then remainingPoints else js_sub remainingPoints n))"

text \<open>
  The \<^verbatim>\<open>while (currentDate <= endDate)\<close> loop; an entry is (day, remainingPoints), pushed
  to the end of \<open>burndownData\<close>. When the next day is no valid date the comparison is false
  and the loop ends. The loop need not end for every time zone, so it answers an option.
\<close>

partial_function (option) burndown_loop ::
  "timezone \<Rightarrow> (int \<rightharpoonup> jsnum) \<Rightarrow> int \<Rightarrow> int \<Rightarrow> jsnum \<Rightarrow> (int \<times> jsnum) list
     \<Rightarrow> (int \<times> jsnum) list option" where
  "burndown_loop tz pointsByDate endDate currentDate remainingPoints burndownData =
     (if currentDate \<le> endDate then
        let key = dateKey currentDate;
            remaining' = subtract_day (pointsByDate key) remainingPoints;
            burndownData' = burndownData @ [(key, remaining')]
        in (case setDate_nextDay tz currentDate of
              None \<Rightarrow> Some burndownData'
            | Some nextDate \<Rightarrow>
                burndown_loop tz pointsByDate endDate nextDate remaining' burndownData')
      else Some burndownData)"

text \<open>
  A date path of a loaded project: the date stored, \<^verbatim>\<open>null\<close> when that is stored, and
  the default of the schema when the document has no such field. \<open>startDate\<close> has the
  default \<^verbatim>\<open>Date.now\<close>, \<open>endDate\<close> has none.
\<close>

definition loaded_date :: "int option \<Rightarrow> stored_date \<Rightarrow> int option" where
  "loaded_date dflt d = (case d of NoDate \<Rightarrow> dflt | NullDate \<Rightarrow> None | IsDate t \<Rightarrow> Some t)"

text \<open>
  The handler, at the time \<open>now\<close> on a server in the time zone \<open>tz\<close>. It answers the
  total and the series, or an error; \<open>None\<close> when the loop does not end.
\<close>

definition getBurndownData ::
  "int \<Rightarrow> timezone \<Rightarrow> req_id \<Rightarrow> store
     \<Rightarrow> (http_error + jsnum \<times> (int \<times> jsnum) list) option" where
  "getBurndownData now tz rid s =
     (case rid of
        GoodId projectId \<Rightarrow>
          (case findProject s projectId of
             None \<Rightarrow> Some (Inl (HttpError 404 ''Project not found''))
           | Some project \<Rightarrow>
               let completedTasks =
                     filter (\<lambda>t. t_project t = projectId \<and> t_status t = ''Done''
                                 \<and> t_completedAt t \<noteq> None) (st_tasks s);
                   allTasks = filter (\<lambda>t. t_project t = projectId) (st_tasks s);
                   totalPoints = foldl (\<lambda>sum task. js_add sum (Exact (t_storyPoints task)))
                                   (Exact 0) allTasks
               in (case loaded_date (Some now) (p_startDate project) of
                     None \<Rightarrow> Some (Inr (totalPoints, []))
                   | Some startDate \<Rightarrow>
                       (case loaded_date None (p_endDate project) of
                          None \<Rightarrow> Some (Inr (totalPoints, []))
                        | Some endDate \<Rightarrow>
                            map_option (\<lambda>burndownData. Inr (totalPoints, burndownData))
                              (burndown_loop tz (group_points completedTasks) endDate
                                 startDate totalPoints []))))
      | _ \<Rightarrow> Some (Inl (HttpError 400 ''Invalid project ID'')))"

section \<open>A small project\<close>

text \<open>
  Concrete documents on which the operations are run: project 1 with the four default
  columns, project 2 with the same columns, the epic 10 and the task 11 of project 1,
  user 50, and one sprint per project.
\<close>

definition mk_task :: "oid \<Rightarrow> string \<Rightarrow> task_type \<Rightarrow> string \<Rightarrow> oid \<Rightarrow> task" where
  "mk_task i n ty st p =
     \<lparr>t_id = i, t_name = n, t_description = ''text'', t_type = ty, t_status = st,
      t_project = p, t_sprint = None, t_reporter = None, t_assignee = 50,
      t_storyPoints = 2, t_completedAt = None, t_parentTask = None\<rparr>"

definition mk_sprint :: "oid \<Rightarrow> oid \<Rightarrow> oid list \<Rightarrow> sprint" where
  "mk_sprint i p ts =
     \<lparr>s_id = i, s_project = p, s_tasks = ts, s_completedTasks = 0, s_totalTasks = length ts\<rparr>"

definition mk_project :: "oid \<Rightarrow> board_column list \<Rightarrow> int \<Rightarrow> int \<Rightarrow> project" where
  "mk_project i cols a b =
     \<lparr>p_id = i, p_boardColumns = cols, p_startDate = IsDate a, p_endDate = IsDate b\<rparr>"

definition mk_store :: "task list \<Rightarrow> sprint list \<Rightarrow> project list \<Rightarrow> store" where
  "mk_store ts sps ps =
     \<lparr>st_tasks = ts, st_sprints = sps, st_projects = ps, st_users = [50],
      st_activities = [], st_activity_fault = (\<lambda>a. None)\<rparr>"

definition ex_store :: store where
  "ex_store =
     mk_store [mk_task 10 ''Release'' Epic ''To Do'' 1, mk_task 11 ''Login'' Task ''To Do'' 1]
       [mk_sprint 20 1 [], mk_sprint 21 2 []]
       [mk_project 1 (default_boardColumns (\<lambda>k. 100 + k)) 0 (2 * DAY),
        mk_project 2 (default_boardColumns (\<lambda>k. 200 + k)) 0 (2 * DAY)]"

definition done_store :: store where
  "done_store =
     mk_store [mk_task 10 ''Release'' Epic ''To Do'' 1, mk_task 11 ''Login'' Task ''Done'' 1]
       [mk_sprint 20 1 []]
       [mk_project 1 (default_boardColumns (\<lambda>k. 100 + k)) 0 (2 * DAY)]"

definition sprint_store :: store where
  "sprint_store =
     mk_store [mk_task 10 ''Release'' Epic ''To Do'' 1, mk_task 11 ''Login'' Task ''To Do'' 1]
       [mk_sprint 20 1 [11]]
       [mk_project 1 (default_boardColumns (\<lambda>k. 100 + k)) 0 (2 * DAY)]"

definition epic_req :: create_req where
  "epic_req = \<lparr>r_name = ''Roadmap'', r_description = ''text'', r_type = Some Epic,
               r_status = ''To Do'', r_storyPoints = None, r_assignee = GoodId 50,
               r_reporter = NoId, r_parentTask = GoodId 10, r_project = GoodId 1\<rparr>"

definition one_column_store :: store where
  "one_column_store =
     mk_store [] [] [mk_project 1 [\<lparr>c_id = 7, c_name = ''Backlog'', c_order = 0\<rparr>] 0 DAY]"

section \<open>Statements about the completion timestamp\<close>

text \<open>
  Whether the task's sprint reference names a stored sprint, and the completion timestamp
  a save is expected to leave: set or cleared when status or sprint is modified and the
  sprint exists, untouched otherwise.
\<close>

definition has_stored_sprint :: "task \<Rightarrow> store \<Rightarrow> bool" where
  "has_stored_sprint t s =
     (case t_sprint t of None \<Rightarrow> False
      | Some sid \<Rightarrow> (case findSprint s sid of None \<Rightarrow> False | Some sp \<Rightarrow> True))"

definition expected_completedAt :: "int \<Rightarrow> doc_state \<Rightarrow> task \<Rightarrow> store \<Rightarrow> int option" where
  "expected_completedAt now d t s =
     (if (modStatus d \<or> modSprint d) \<and> has_stored_sprint t s then
        (if isCompletedStatus (t_status t)
         then (case t_completedAt t of None \<Rightarrow> Some now | Some c \<Rightarrow> Some c)
         else None)
      else t_completedAt t)"

section \<open>The unique indexes of the task collection\<close>

text \<open>
  The key of the declared index \<^verbatim>\<open>{ name: 1, project: 1 }\<close>, and the state of a task
  collection in which no two documents share an \<^verbatim>\<open>_id\<close> or a key.
\<close>

definition task_key :: "task \<Rightarrow> string \<times> oid" where
  "task_key t = (t_name t, t_project t)"

definition unique_index :: "task list \<Rightarrow> bool" where
  "unique_index ts = (distinct (map t_id ts) \<and> distinct (map task_key ts))"

section \<open>Statements about the burndown series\<close>

text \<open>
  Whether a task was completed on a day between \<open>lo\<close> and \<open>hi\<close>; the story points of
  a project's tasks with status "Done" completed between two days, and of those completed on
  or before a day; the project's total story points; and the sum of the magnitudes of the
  story points of a list of tasks.
\<close>

definition completed_between :: "int \<Rightarrow> int \<Rightarrow> task \<Rightarrow> bool" where
  "completed_between lo hi t =
     (case t_completedAt t of None \<Rightarrow> False | Some c \<Rightarrow> lo \<le> dateKey c \<and> dateKey c \<le> hi)"

definition points_done_between :: "oid \<Rightarrow> int \<Rightarrow> int \<Rightarrow> task list \<Rightarrow> int" where
  "points_done_between pid lo hi ts =
     sum_list (map t_storyPoints
       (filter (\<lambda>t. t_project t = pid \<and> t_status t = ''Done'' \<and> completed_between lo hi t) ts))"

definition points_done_by :: "oid \<Rightarrow> int \<Rightarrow> task list \<Rightarrow> int" where
  "points_done_by pid day ts =
     sum_list (map t_storyPoints
       (filter (\<lambda>t. t_project t = pid \<and> t_status t = ''Done''
                   \<and> (case t_completedAt t of None \<Rightarrow> False | Some c \<Rightarrow> dateKey c \<le> day)) ts))"

definition total_points :: "oid \<Rightarrow> task list \<Rightarrow> int" where
  "total_points pid ts = sum_list (map t_storyPoints (filter (\<lambda>t. t_project t = pid) ts))"

definition abs_points :: "task list \<Rightarrow> int" where
  "abs_points ts = sum_list (map (\<lambda>t. \<bar>t_storyPoints t\<bar>) ts)"

text \<open>
  The number of steps of 24 hours from a start date that stay at or before an end date, and
  the points of the tasks of a list completed between two days.
\<close>

definition series_length :: "int \<Rightarrow> int \<Rightarrow> nat" where
  "series_length startDate endDate =
     (if startDate \<le> endDate then nat ((endDate - startDate) div DAY) + 1 else 0)"

definition points_in :: "task list \<Rightarrow> int \<Rightarrow> int \<Rightarrow> int" where
  "points_in cs lo hi = sum_list (map t_storyPoints (filter (completed_between lo hi) cs))"

text \<open>
  A map of points by day that holds the sums \<open>g\<close>: at each day no entry where the sum is
  0, or the exact sum.
\<close>

definition holds_sums :: "(int \<rightharpoonup> jsnum) \<Rightarrow> (int \<Rightarrow> int) \<Rightarrow> bool" where
  "holds_sums m g = (\<forall>k. (m k = None \<and> g k = 0) \<or> m k = Some (Exact (g k)))"

text \<open>
  Two time zones: UTC, and one whose clocks are an hour ahead of UTC until noon UTC of day 1
  and go back to UTC then.
\<close>

definition utc :: timezone where
  "utc = \<lparr>localTZA_utc = (\<lambda>t. 0), localTZA_local = (\<lambda>t. 0)\<rparr>"

definition clocks_back :: timezone where
  "clocks_back =
     \<lparr>localTZA_utc = (\<lambda>t. if t < DAY + DAY div 2 then 3600000 else 0),
      localTZA_local = (\<lambda>t. if t < DAY + DAY div 2 + 3600000 then 3600000 else 0)\<rparr>"

definition burn_store :: store where
  "burn_store =
     mk_store [(mk_task 10 ''Refund'' Bug ''To Do'' 1)\<lparr>t_storyPoints := - 5\<rparr>,
               (mk_task 11 ''Login'' Task ''Done'' 1)\<lparr>t_completedAt := Some (DAY + 5)\<rparr>] []
       [mk_project 1 [] 0 (2 * DAY)]"

definition early_store :: store where
  "early_store =
     mk_store [(mk_task 11 ''Login'' Task ''Done'' 1)\<lparr>t_completedAt := Some (5 * DAY)\<rparr>] []
       [mk_project 1 [] (10 * DAY) (10 * DAY), mk_project 2 [] (DAY div 2) (2 * DAY)]"

text \<open>
  A project from 23:30 of day 0 to the last millisecond of day 2, with a task completed on
  day 1; and a project document without a start date.
\<close>

definition night_store :: store where
  "night_store =
     mk_store [(mk_task 11 ''Login'' Task ''Done'' 1)\<lparr>t_completedAt := Some (DAY + 5)\<rparr>] []
       [mk_project 1 [] (DAY - 1800000) (3 * DAY - 1),
        (mk_project 2 [] 0 (2 * DAY))\<lparr>p_startDate := NoDate\<rparr>]"

text \<open>The small project on a store that refuses every write to the Activity collection.\<close>

definition failing_log_store :: store where
  "failing_log_store = ex_store\<lparr>st_activity_fault := (\<lambda>a. Some (Error ''write refused''))\<rparr>"

section \<open>Evaluation\<close>

lemmas ex_defs = mk_task_def mk_sprint_def mk_project_def mk_store_def ex_store_def
  default_boardColumns_def findTask_def findSprint_def findProject_def

lemmas save_defs = task_save_def validate_task_def storyPoints_hook_def status_hook_def
  sprint_stats_hook_def hierarchy_hook_def sprint_cleared_hook_def insertTask_def
  replaceTask_def sprint_updateMany_def sprint_findByIdAndUpdate_def countCompleted_def
  isCompletedStatus_def pull_def addToSet_def

lemmas log_defs = logActivity_def activity_write_def validate_activity_def activity_actions_def

section \<open>Cross-project assignment\<close>

text \<open>
  C5. For a stored task and a stored sprint of different projects,
  \<open>moveToSprint taskId sprintId\<close> fails with the error "Task and sprint must belong to the
  same project", and the store it leaves is the store it was given: the task, its sprint
  reference and every sprint's task list are unmodified.
\<close>

theorem moveToSprint_cross_project:
  assumes "findTask s taskId = Some task"
    and "findSprint s sid = Some sp"
    and "t_project task \<noteq> s_project sp"
  shows "moveToSprint now taskId (Some sid) s =
           (Inl (Error ''Task and sprint must belong to the same project''), s)"
  using assms by (simp add: moveToSprint_def)

theorem moveToSprint_cross_project_witness:
  "findTask ex_store 10 = Some (mk_task 10 ''Release'' Epic ''To Do'' 1)
   \<and> findSprint ex_store 21 = Some (mk_sprint 21 2 [])
   \<and> t_project (mk_task 10 ''Release'' Epic ''To Do'' 1) \<noteq> s_project (mk_sprint 21 2 [])
   \<and> moveToSprint 5 10 (Some 21) ex_store =
       (Inl (Error ''Task and sprint must belong to the same project''), ex_store)"
proof -
  have t: "findTask ex_store 10 = Some (mk_task 10 ''Release'' Epic ''To Do'' 1)"
    by (simp add: ex_defs)
  have sp: "findSprint ex_store 21 = Some (mk_sprint 21 2 [])"
    by (simp add: ex_defs)
  have ne: "t_project (mk_task 10 ''Release'' Epic ''To Do'' 1) \<noteq> s_project (mk_sprint 21 2 [])"
    by (simp add: ex_defs)
  from moveToSprint_cross_project [OF t sp ne] t sp ne show ?thesis by simp
qed

section \<open>Sprint counters\<close>

text \<open>
  What the sprint schema's save hook does when it runs: with task ids unique in the
  collection, the counters it writes agree with the task list.
\<close>

lemma countCompleted_le:
  assumes "distinct (map t_id (st_tasks s))"
  shows "countCompleted s ids \<le> length ids"
proof -
  let ?members = "filter (\<lambda>t. t_id t \<in> set ids \<and> isCompletedStatus (t_status t)) (st_tasks s)"
  have "distinct (map t_id ?members)"
    using assms by (rule distinct_map_filter)
  then have "card (set (map t_id ?members)) = length (map t_id ?members)"
    by (rule distinct_card)
  then have "length ?members = card (set (map t_id ?members))"
    by (simp only: length_map)
  also have "\<dots> \<le> card (set ids)"
    by (rule card_mono) auto
  also have "\<dots> \<le> length ids"
    by (rule card_length)
  finally show ?thesis by (simp add: countCompleted_def)
qed

lemma sprint_count_hook_consistent:
  assumes "distinct (map t_id (st_tasks s))"
  shows "counters_consistent (sprint_count_hook True sp s)"
  using countCompleted_le [OF assms]
  by (simp add: counters_consistent_def sprint_count_hook_def)

text \<open>
  C1. After an operation that changes a sprint's task set, the sprint's counters should
  satisfy \<open>completedTasks \<le> totalTasks\<close> and \<open>totalTasks = |tasks|\<close>. The sprint
  schema's save hook recomputes both, but \<open>addTasksToSprint\<close> and \<open>moveToSprint\<close> change
  the task list by query updates, which run no save hook: adding task 11 to the empty
  sprint 20 leaves \<open>totalTasks = 0\<close> beside one member, and moving the completed task 11
  into sprint 20 leaves \<open>completedTasks = 1\<close> above \<open>totalTasks = 0\<close>.
\<close>

theorem sprint_counters_stale:
  "addTasksToSprint (GoodId 20) [11] ex_store =
     (Inr (Some \<lparr>s_id = 20, s_project = 1, s_tasks = [11], s_completedTasks = 0,
                  s_totalTasks = 0\<rparr>),
      ex_store\<lparr>st_sprints :=
        [\<lparr>s_id = 20, s_project = 1, s_tasks = [11], s_completedTasks = 0, s_totalTasks = 0\<rparr>,
         mk_sprint 21 2 []]\<rparr>)
   \<and> \<not> counters_consistent
         \<lparr>s_id = 20, s_project = 1, s_tasks = [11], s_completedTasks = 0, s_totalTasks = 0\<rparr>
   \<and> findSprint (snd (moveToSprint 5 11 (Some 20) done_store)) 20 =
       Some \<lparr>s_id = 20, s_project = 1, s_tasks = [11], s_completedTasks = 1, s_totalTasks = 0\<rparr>"
  by (simp add: addTasksToSprint_def moveToSprint_def done_store_def ex_defs save_defs
        counters_consistent_def)

section \<open>Status validation on update\<close>

text \<open>
  On creation the controller's substitution yields a column name whenever the project has
  a first column with a name.
\<close>

lemma create_status_column:
  assumes "p_boardColumns p = c # cs" and "c_name c \<noteq> []"
  shows "list_ex (\<lambda>column. c_name column = create_status st p) (p_boardColumns p)"
  using assms by (simp add: create_status_def Let_def)

text \<open>
  C3. An update to a status that names no board column of the project should be rejected
  and leave the stored status unchanged. \<open>updateTask\<close> writes through
  \<open>task_findByIdAndUpdate\<close>, which does not run the schema's status hook: the update of
  task 11 to the status "Blocked", which is no column of project 1, succeeds and is stored.
  On creation in a project without columns, the controller substitutes "To Do" and the
  save hook then rejects it: the creation is answered with status 500 and stores nothing.
\<close>

theorem updateTask_unknown_status_stored:
  "fst (updateTask 5 (GoodId 11) None [SetStatus ''Blocked''] ex_store) =
     Inr ((mk_task 11 ''Login'' Task ''To Do'' 1)\<lparr>t_status := ''Blocked''\<rparr>)
   \<and> findTask (snd (updateTask 5 (GoodId 11) None [SetStatus ''Blocked''] ex_store)) 11 =
     Some ((mk_task 11 ''Login'' Task ''To Do'' 1)\<lparr>t_status := ''Blocked''\<rparr>)
   \<and> list_ex (\<lambda>c. c_name c = ''Blocked'') (default_boardColumns (\<lambda>k. 100 + k)) = False
   \<and> createTask 5 12 None (epic_req\<lparr>r_parentTask := NoId, r_status := ''Blocked''\<rparr>)
         early_store =
       (Inl (HttpError 500 ''Server error''), early_store)"
  by (simp add: updateTask_def task_findByIdAndUpdate_def changed_fields_def
        createTask_def parent_check_def create_status_def new_task_def respond_error_def
        epic_req_def early_store_def ex_defs save_defs log_defs Let_def)

section \<open>Deleting a task\<close>

text \<open>
  C6. Deleting a childless task should remove its id from every sprint's task list. The
  schema's \<open>deleteOne\<close> hook does that for a document's \<open>deleteOne()\<close>, but
  \<open>deleteTask\<close> deletes through \<open>task_findByIdAndDelete\<close>, which runs no document hook:
  after the successful deletion of task 11, sprint 20 still lists it.
\<close>

theorem deleteTask_leaves_sprint_entry:
  "fst (deleteTask 5 (GoodId 11) (Some 50) sprint_store) = Inr ''Task deleted successfully''
   \<and> findTask (snd (deleteTask 5 (GoodId 11) (Some 50) sprint_store)) 11 = None
   \<and> findSprint (snd (deleteTask 5 (GoodId 11) (Some 50) sprint_store)) 20 =
       Some (mk_sprint 20 1 [11])
   \<and> findSprint (task_deleteOne (mk_task 11 ''Login'' Task ''To Do'' 1) sprint_store) 20 =
       Some \<lparr>s_id = 20, s_project = 1, s_tasks = [], s_completedTasks = 0, s_totalTasks = 1\<rparr>"
  by (simp add: deleteTask_def task_findByIdAndDelete_def task_deleteOne_def deleteOne_hook_def
        sprint_store_def ex_defs save_defs log_defs Let_def)

section \<open>Activity logging\<close>

lemma replaceTask_oracle:
  "replaceTask t (s\<lparr>st_activity_fault := fault\<rparr>) =
     map_sum id (\<lambda>s'. s'\<lparr>st_activity_fault := fault\<rparr>) (replaceTask t s)"
  by (simp add: replaceTask_def)

lemma task_findByIdAndUpdate_oracle:
  "task_findByIdAndUpdate i upd (s\<lparr>st_activity_fault := fault\<rparr>) =
     map_prod id (\<lambda>s'. s'\<lparr>st_activity_fault := fault\<rparr>) (task_findByIdAndUpdate i upd s)"
  by (simp add: task_findByIdAndUpdate_def replaceTask_oracle findTask_def Let_def
           split: option.splits sum.splits)

lemma logActivity_tasks:
  "st_tasks (snd (logActivity now u act tid pid d f ov nv s)) = st_tasks s"
  by (simp add: logActivity_def activity_write_def Let_def split: option.splits)

lemma log_changes_tasks:
  "st_tasks (log_changes now actor t cs s) = st_tasks s"
  by (induction cs arbitrary: s) (simp_all add: logActivity_tasks Let_def)

section \<open>What the save hooks keep\<close>

lemma storyPoints_hook_fields:
  "t_completedAt (storyPoints_hook t) = t_completedAt t"
  "t_status (storyPoints_hook t) = t_status t"
  "t_sprint (storyPoints_hook t) = t_sprint t"
  "t_id (storyPoints_hook t) = t_id t"
  "t_name (storyPoints_hook t) = t_name t"
  "t_project (storyPoints_hook t) = t_project t"
  "t_type (storyPoints_hook t) = t_type t"
  "t_parentTask (storyPoints_hook t) = t_parentTask t"
  by (simp_all add: storyPoints_hook_def)

lemma sprint_stats_hook_completedAt:
  "t_completedAt (fst (sprint_stats_hook now d t s)) = expected_completedAt now d t s"
  by (auto simp: sprint_stats_hook_def expected_completedAt_def has_stored_sprint_def Let_def
           split: option.splits)

lemma hierarchy_hook_fields:
  assumes "hierarchy_hook t s = Inr t'"
  shows "t_completedAt t' = t_completedAt t" "t_status t' = t_status t"
    "t_sprint t' = t_sprint t" "t_id t' = t_id t" "t_name t' = t_name t"
    "t_project t' = t_project t" "t_type t' = t_type t"
  using assms
  by (auto simp: hierarchy_hook_def Let_def split: task_type.splits option.splits if_splits)

lemma task_save_Inr:
  assumes "task_save now d t s = (Inr t', s')"
  shows "hierarchy_hook (fst (sprint_stats_hook now d (storyPoints_hook t) s))
           (snd (sprint_stats_hook now d (storyPoints_hook t) s)) = Inr t'"
  using assms
  by (auto simp: task_save_def Let_def split: option.splits sum.splits prod.splits if_splits)


lemma find_replaced:
  "list_ex (\<lambda>u. t_id u = t_id t) ts \<Longrightarrow>
   find (\<lambda>u. t_id u = t_id t) (map (\<lambda>u. if t_id u = t_id t then t else u) ts) = Some t"
  by (induction ts) auto

lemma find_appended:
  "\<not> list_ex (\<lambda>u. t_id u = t_id t) ts \<Longrightarrow> find (\<lambda>u. t_id u = t_id t) (ts @ [t]) = Some t"
  by (induction ts) auto

lemma insertTask_stored:
  "insertTask t s = Inr s' \<Longrightarrow> findTask s' (t_id t) = Some t"
  by (auto simp: insertTask_def findTask_def list_ex_iff intro!: find_appended split: if_splits)

lemma replaceTask_stored:
  "replaceTask t s = Inr s' \<Longrightarrow> findTask s' (t_id t) = Some t"
  by (auto simp: replaceTask_def findTask_def intro!: find_replaced split: if_splits)

lemma task_save_stored:
  assumes "task_save now d t s = (Inr t', s')"
  shows "findTask s' (t_id t) = Some t'"
proof -
  have id: "t_id t' = t_id t"
    using hierarchy_hook_fields(4) [OF task_save_Inr [OF assms]]
    by (simp add: sprint_stats_hook_def storyPoints_hook_fields Let_def split: option.splits)
  from assms have "\<exists>s3. insertTask t' s3 = Inr s' \<or> replaceTask t' s3 = Inr s'"
    by (auto simp: task_save_def Let_def split: option.splits sum.splits prod.splits if_splits)
  then have "findTask s' (t_id t') = Some t'"
    using insertTask_stored replaceTask_stored by blast
  with id show ?thesis by simp
qed


section \<open>The completion timestamp\<close>

text \<open>
  C4 as the code has it. After a successful save of a task: when the status or the sprint
  of the document is modified and its sprint reference names a stored sprint, the
  completion timestamp is the current time if the status is "Done" or "Completed" and it
  was unset (an earlier timestamp is kept), and it is cleared if the status is neither;
  in every other case, in particular for a task in no sprint, the timestamp is left as it
  was. The saved document is the stored one.
\<close>

theorem completedAt_bookkeeping:
  assumes "task_save now d t s = (Inr t', s')"
  shows "t_completedAt t' = expected_completedAt now d t s \<and> findTask s' (t_id t) = Some t'"
proof -
  have "t_completedAt t' = t_completedAt (fst (sprint_stats_hook now d (storyPoints_hook t) s))"
    using hierarchy_hook_fields(1) [OF task_save_Inr [OF assms]] .
  also have "\<dots> = expected_completedAt now d (storyPoints_hook t) s"
    by (rule sprint_stats_hook_completedAt)
  also have "\<dots> = expected_completedAt now d t s"
    by (simp add: expected_completedAt_def has_stored_sprint_def storyPoints_hook_fields)
  finally show ?thesis using task_save_stored [OF assms] by simp
qed

text \<open>
  The theorem at a task of sprint 20 whose status became "Done": the save stamps it with
  the current time 1000.
\<close>

theorem completedAt_bookkeeping_witness:
  "task_save 1000 \<lparr>isNew = False, modStatus = True, modSprint = False\<rparr>
      ((mk_task 11 ''Login'' Task ''Done'' 1)\<lparr>t_sprint := Some 20\<rparr>) sprint_store =
     (Inr ((mk_task 11 ''Login'' Task ''Done'' 1)\<lparr>t_sprint := Some 20, t_completedAt := Some 1000\<rparr>),
      snd (task_save 1000 \<lparr>isNew = False, modStatus = True, modSprint = False\<rparr>
             ((mk_task 11 ''Login'' Task ''Done'' 1)\<lparr>t_sprint := Some 20\<rparr>) sprint_store))
   \<and> expected_completedAt 1000 \<lparr>isNew = False, modStatus = True, modSprint = False\<rparr>
         ((mk_task 11 ''Login'' Task ''Done'' 1)\<lparr>t_sprint := Some 20\<rparr>) sprint_store = Some 1000"
proof -
  have run: "task_save 1000 \<lparr>isNew = False, modStatus = True, modSprint = False\<rparr>
      ((mk_task 11 ''Login'' Task ''Done'' 1)\<lparr>t_sprint := Some 20\<rparr>) sprint_store =
     (Inr ((mk_task 11 ''Login'' Task ''Done'' 1)\<lparr>t_sprint := Some 20, t_completedAt := Some 1000\<rparr>),
      snd (task_save 1000 \<lparr>isNew = False, modStatus = True, modSprint = False\<rparr>
             ((mk_task 11 ''Login'' Task ''Done'' 1)\<lparr>t_sprint := Some 20\<rparr>) sprint_store))"
    by (simp add: prod_eq_iff sprint_store_def ex_defs save_defs Let_def)
  from completedAt_bookkeeping [OF run] run show ?thesis by (simp add: mk_task_def)
qed

text \<open>
  The claim as stated, "regardless of whether the task is assigned to a sprint", fails: a
  task in no sprint whose status became "Done" is saved with no completion timestamp, and
  one whose status left the completed labels keeps its timestamp 7.
\<close>

theorem completedAt_without_sprint_counterexample:
  "fst (task_save 1000 \<lparr>isNew = False, modStatus = True, modSprint = False\<rparr>
          (mk_task 11 ''Login'' Task ''Done'' 1) ex_store) =
     Inr ((mk_task 11 ''Login'' Task ''Done'' 1)\<lparr>t_completedAt := None\<rparr>)
   \<and> fst (task_save 1000 \<lparr>isNew = False, modStatus = True, modSprint = False\<rparr>
          ((mk_task 11 ''Login'' Task ''To Do'' 1)\<lparr>t_completedAt := Some 7\<rparr>) ex_store) =
     Inr ((mk_task 11 ''Login'' Task ''To Do'' 1)\<lparr>t_completedAt := Some 7\<rparr>)"
  by (simp add: ex_defs save_defs Let_def)


section \<open>Epics have no parent\<close>

lemma task_save_epic:
  assumes "task_save now d t s = (Inr t', s')" and "t_type t = Epic"
  shows "t_parentTask t' = None \<and> t_type t' = Epic"
proof -
  let ?t2 = "fst (sprint_stats_hook now d (storyPoints_hook t) s)"
  let ?s2 = "snd (sprint_stats_hook now d (storyPoints_hook t) s)"
  have h: "hierarchy_hook ?t2 ?s2 = Inr t'" by (rule task_save_Inr [OF assms(1)])
  have ty: "t_type ?t2 = Epic"
    using assms(2)
    by (simp add: sprint_stats_hook_def storyPoints_hook_fields Let_def split: option.splits)
  from h ty show ?thesis
    by (auto simp: hierarchy_hook_def Let_def split: if_splits)
qed

lemma createTask_epic_parent_rejected:
  assumes "r_type req = Some Epic" and "r_parentTask req \<noteq> NoId"
  shows "\<exists>e. createTask now newId uid req s = (Inl e, s)"
proof -
  have "\<exists>e. parent_check req s = Some e"
    using assms by (cases "r_parentTask req") (auto simp: parent_check_def split: option.splits)
  then show ?thesis
    by (auto simp: createTask_def Let_def split: req_id.splits option.splits)
qed

lemma activity_write_tasks: "activity_write a s = Inr s' \<Longrightarrow> st_tasks s' = st_tasks s"
  by (auto simp: activity_write_def split: option.splits)

lemma createTask_Inr:
  assumes "createTask now newId uid req s = (Inr t, s')"
  shows "\<exists>ts pid aid s1. task_save now \<lparr>isNew = True, modStatus = True, modSprint = False\<rparr>
            (new_task newId req ts pid aid) s = (Inr t, s1) \<and> st_tasks s' = st_tasks s1"
  using assms
  apply (auto simp: createTask_def Let_def
           split: req_id.splits option.splits if_splits sum.splits prod.splits)
   apply (blast dest: activity_write_tasks)+
  done

text \<open>
  C2 as the code has it. On creation, an epic supplied with a parent is rejected by the
  controller and the store is left as it was. The save hook clears the parent of an epic
  whenever a task document is saved, so the task a successful \<open>createTask\<close> answers
  with, if an epic, has no parent and is the stored document; and every successful save
  of an epic document stores it as an epic with no parent.
\<close>

theorem epic_parent_on_create:
  "(r_type req = Some Epic \<and> r_parentTask req \<noteq> NoId \<longrightarrow>
      (\<exists>e. createTask now newId uid req s = (Inl e, s)))
   \<and> (createTask now newId uid req s = (Inr t, s') \<and> t_type t = Epic \<longrightarrow>
      t_parentTask t = None \<and> findTask s' (t_id t) = Some t)
   \<and> (task_save now d doc s = (Inr saved, s2) \<and> t_type doc = Epic \<longrightarrow>
      t_type saved = Epic \<and> t_parentTask saved = None \<and> findTask s2 (t_id doc) = Some saved)"
proof (intro conjI impI)
  assume "r_type req = Some Epic \<and> r_parentTask req \<noteq> NoId"
  then show "\<exists>e. createTask now newId uid req s = (Inl e, s)"
    by (simp add: createTask_epic_parent_rejected)
next
  assume a: "createTask now newId uid req s = (Inr t, s') \<and> t_type t = Epic"
  then obtain ts pid aid s1 where
    sv: "task_save now \<lparr>isNew = True, modStatus = True, modSprint = False\<rparr>
           (new_task newId req ts pid aid) s = (Inr t, s1)"
    and st: "st_tasks s' = st_tasks s1"
    using createTask_Inr by blast
  have ty: "t_type t = t_type (new_task newId req ts pid aid)"
    using hierarchy_hook_fields(7) [OF task_save_Inr [OF sv]]
    by (simp add: sprint_stats_hook_def storyPoints_hook_fields Let_def split: option.splits)
  have idt: "t_id t = t_id (new_task newId req ts pid aid)"
    using hierarchy_hook_fields(4) [OF task_save_Inr [OF sv]]
    by (simp add: sprint_stats_hook_def storyPoints_hook_fields Let_def split: option.splits)
  from a ty have "t_type (new_task newId req ts pid aid) = Epic" by simp
  from task_save_epic [OF sv this] show "t_parentTask t = None" by simp
  from task_save_stored [OF sv] idt st show "findTask s' (t_id t) = Some t"
    by (simp add: findTask_def)
next
  assume a: "task_save now d doc s = (Inr saved, s2) \<and> t_type doc = Epic"
  then show "t_type saved = Epic" using task_save_epic by blast
  from a show "t_parentTask saved = None" using task_save_epic by blast
  from a show "findTask s2 (t_id doc) = Some saved" using task_save_stored by blast
qed

text \<open>
  The theorem at an epic request with parent 10 (rejected), at the same request without a
  parent (created with no parent), and at the save of the epic 10 with parent 11 (saved
  with the parent cleared).
\<close>

theorem epic_parent_on_create_witness:
  "r_type epic_req = Some Epic \<and> r_parentTask epic_req \<noteq> NoId
   \<and> (\<exists>e. createTask 5 12 None epic_req ex_store = (Inl e, ex_store))
   \<and> createTask 5 12 None (epic_req\<lparr>r_parentTask := NoId\<rparr>) ex_store =
       (Inr ((mk_task 12 ''Roadmap'' Epic ''To Do'' 1)\<lparr>t_storyPoints := 3\<rparr>),
        snd (createTask 5 12 None (epic_req\<lparr>r_parentTask := NoId\<rparr>) ex_store))
   \<and> findTask (snd (createTask 5 12 None (epic_req\<lparr>r_parentTask := NoId\<rparr>) ex_store)) 12 =
       Some ((mk_task 12 ''Roadmap'' Epic ''To Do'' 1)\<lparr>t_storyPoints := 3\<rparr>)
   \<and> task_save 5 \<lparr>isNew = False, modStatus = False, modSprint = False\<rparr>
        ((mk_task 10 ''Release'' Epic ''To Do'' 1)\<lparr>t_parentTask := Some 11\<rparr>) ex_store =
       (Inr (mk_task 10 ''Release'' Epic ''To Do'' 1), ex_store)"
proof -
  have h1: "r_type epic_req = Some Epic \<and> r_parentTask epic_req \<noteq> NoId"
    by (simp add: epic_req_def)
  have h2: "createTask 5 12 None (epic_req\<lparr>r_parentTask := NoId\<rparr>) ex_store =
       (Inr ((mk_task 12 ''Roadmap'' Epic ''To Do'' 1)\<lparr>t_storyPoints := 3\<rparr>),
        snd (createTask 5 12 None (epic_req\<lparr>r_parentTask := NoId\<rparr>) ex_store))
      \<and> t_type ((mk_task 12 ''Roadmap'' Epic ''To Do'' 1)\<lparr>t_storyPoints := 3\<rparr>) = Epic"
    by (simp add: prod_eq_iff createTask_def parent_check_def create_status_def new_task_def
          epic_req_def log_defs ex_defs save_defs Let_def)
  have h3: "task_save 5 \<lparr>isNew = False, modStatus = False, modSprint = False\<rparr>
        ((mk_task 10 ''Release'' Epic ''To Do'' 1)\<lparr>t_parentTask := Some 11\<rparr>) ex_store =
       (Inr (mk_task 10 ''Release'' Epic ''To Do'' 1), ex_store)
      \<and> t_type ((mk_task 10 ''Release'' Epic ''To Do'' 1)\<lparr>t_parentTask := Some 11\<rparr>) = Epic"
    by (simp add: ex_defs save_defs Let_def)
  have c1: "\<exists>e. createTask 5 12 None epic_req ex_store = (Inl e, ex_store)"
    using epic_parent_on_create [where req = epic_req and now = 5 and newId = 12 and uid = None and s = ex_store] h1
    by blast
  have c2: "findTask (snd (createTask 5 12 None (epic_req\<lparr>r_parentTask := NoId\<rparr>) ex_store)) 12 =
       Some ((mk_task 12 ''Roadmap'' Epic ''To Do'' 1)\<lparr>t_storyPoints := 3\<rparr>)"
    using epic_parent_on_create [where req = "epic_req\<lparr>r_parentTask := NoId\<rparr>" and now = 5 and newId = 12
                and uid = None and s = ex_store
                and t = "(mk_task 12 ''Roadmap'' Epic ''To Do'' 1)\<lparr>t_storyPoints := 3\<rparr>"] h2
    by (simp add: mk_task_def)
  from h1 h2 h3 c1 c2 show ?thesis by simp
qed

text \<open>
  The claim as stated fails twice: creating an epic with a parent is rejected, not
  normalised; and \<open>updateTask\<close>, which runs no save hook, stores the epic 10 with the
  parent 11 it was given.
\<close>

theorem epic_parent_counterexample:
  "createTask 5 12 None epic_req ex_store =
     (Inl (HttpError 400 ''Epics cannot have parent tasks''), ex_store)
   \<and> findTask (snd (updateTask 5 (GoodId 10) None [SetParentTask (Some 11)] ex_store)) 10 =
       Some ((mk_task 10 ''Release'' Epic ''To Do'' 1)\<lparr>t_parentTask := Some 11\<rparr>)"
  by (simp add: createTask_def parent_check_def create_status_def epic_req_def
        updateTask_def task_findByIdAndUpdate_def changed_fields_def
        ex_defs save_defs log_defs Let_def)


section \<open>Removing a board column\<close>

lemma findIndex_None: "findIndex P xs = None \<longleftrightarrow> (\<forall>x \<in> set xs. \<not> P x)"
  by (induction xs) auto

lemma findIndex_Some:
  "findIndex P xs = Some i \<Longrightarrow> i < length xs \<and> P (xs ! i) \<and> (\<forall>j<i. \<not> P (xs ! j))"
proof (induction xs arbitrary: i)
  case Nil
  then show ?case by simp
next
  case (Cons x xs)
  show ?case
  proof (cases "P x")
    case True
    with Cons.prems show ?thesis by simp
  next
    case False
    with Cons.prems obtain k where k: "findIndex P xs = Some k" and i: "i = Suc k"
      by auto
    from Cons.IH [OF k] False i show ?thesis
      by (auto simp: nth_Cons split: nat.splits)
  qed
qed

lemma renumber_ids: "map c_id (renumber cols) = map c_id cols"
proof -
  have "map c_id (map (\<lambda>(idx, col). col\<lparr>c_order := idx\<rparr>) (enumerate n cols)) = map c_id cols"
    for n
    by (induction cols arbitrary: n) simp_all
  then show ?thesis by (simp only: renumber_def)
qed

lemma renumber_names: "map c_name (renumber cols) = map c_name cols"
proof -
  have "map c_name (map (\<lambda>(idx, col). col\<lparr>c_order := idx\<rparr>) (enumerate n cols)) =
          map c_name cols" for n
    by (induction cols arbitrary: n) simp_all
  then show ?thesis by (simp only: renumber_def)
qed

lemma renumber_orders: "map c_order (renumber cols) = [0..<length cols]"
proof -
  have "map c_order (map (\<lambda>(idx, col). col\<lparr>c_order := idx\<rparr>) (enumerate n cols)) =
          map fst (enumerate n cols)" for n
    by (induction cols arbitrary: n) simp_all
  from this [of 0] show ?thesis by (simp add: renumber_def)
qed

lemma renumber_Nil: "renumber cols = [] \<longleftrightarrow> cols = []"
  by (cases cols) (simp_all add: renumber_def)

lemma find_project_replaced:
  "find (\<lambda>q. p_id q = i) ps = Some p \<Longrightarrow> p_id p' = i \<Longrightarrow>
   find (\<lambda>q. p_id q = i) (map (\<lambda>q. if p_id q = i then p' else q) ps) = Some p'"
  by (induction ps) (auto split: if_splits)

lemma findProject_id: "findProject s pid = Some p \<Longrightarrow> p_id p = pid"
  by (auto simp: findProject_def find_Some_iff)

lemma project_save_result:
  assumes "findProject s pid = Some p"
    and "project_save newId (p\<lparr>p_boardColumns := cols\<rparr>) s = (saved, s')"
  shows "saved = p\<lparr>p_boardColumns := (if cols = [] then default_boardColumns newId else cols)\<rparr>
         \<and> findProject s' pid = Some saved"
proof -
  have pid: "p_id p = pid" by (rule findProject_id [OF assms(1)])
  have sv: "saved = p\<lparr>p_boardColumns := (if cols = [] then default_boardColumns newId else cols)\<rparr>"
    using assms(2) by (auto simp: project_save_def boardColumns_hook_def Let_def)
  have st: "st_projects s' = map (\<lambda>q. if p_id q = pid then saved else q) (st_projects s)"
    using assms(2) pid by (auto simp: project_save_def boardColumns_hook_def Let_def)
  have "p_id saved = pid" using sv pid by simp
  with assms(1) st have "findProject s' pid = Some saved"
    by (simp add: findProject_def find_project_replaced)
  with sv show ?thesis by simp
qed

text \<open>
  C8 as the code has it. For a stored project: when the column id matches no column,
  \<open>removeBoardColumn\<close> answers 404 "Column not found" and leaves the store as it was.
  Otherwise, with \<open>i\<close> the first index whose column has that id, the columns left are
  the others in their order (same ids, same names) with order values \<open>0..n-2\<close>, they are
  what is answered and stored, except when the removed column was the only one: then the
  project schema's save hook stores, and the answer carries, the four default columns.
\<close>

theorem removeBoardColumn_renumbers:
  assumes "findProject s pid = Some p"
  shows "(columnId \<notin> c_id ` set (p_boardColumns p) \<longrightarrow>
            removeBoardColumn newId (GoodId pid) columnId s =
              (Inl (HttpError 404 ''Column not found''), s))
       \<and> (columnId \<in> c_id ` set (p_boardColumns p) \<longrightarrow>
            (\<exists>i cols'.
               i < length (p_boardColumns p) \<and> c_id (p_boardColumns p ! i) = columnId
               \<and> (\<forall>j<i. c_id (p_boardColumns p ! j) \<noteq> columnId)
               \<and> map c_id cols' = map c_id (take i (p_boardColumns p) @ drop (Suc i) (p_boardColumns p))
               \<and> map c_name cols' = map c_name (take i (p_boardColumns p) @ drop (Suc i) (p_boardColumns p))
               \<and> map c_order cols' = [0..<length (p_boardColumns p) - 1]
               \<and> fst (removeBoardColumn newId (GoodId pid) columnId s) =
                   Inr (if length (p_boardColumns p) = 1 then default_boardColumns newId else cols')
               \<and> findProject (snd (removeBoardColumn newId (GoodId pid) columnId s)) pid =
                   Some (p\<lparr>p_boardColumns :=
                     (if length (p_boardColumns p) = 1 then default_boardColumns newId else cols')\<rparr>)))"
proof (intro conjI impI)
  assume "columnId \<notin> c_id ` set (p_boardColumns p)"
  then have "findIndex (\<lambda>column. c_id column = columnId) (p_boardColumns p) = None"
    by (auto simp: findIndex_None)
  with assms show "removeBoardColumn newId (GoodId pid) columnId s =
      (Inl (HttpError 404 ''Column not found''), s)"
    by (simp add: removeBoardColumn_def)
next
  let ?cols = "p_boardColumns p"
  assume "columnId \<in> c_id ` set ?cols"
  then have "findIndex (\<lambda>column. c_id column = columnId) ?cols \<noteq> None"
    by (auto simp: findIndex_None)
  then obtain i where i: "findIndex (\<lambda>column. c_id column = columnId) ?cols = Some i"
    by auto
  note fi = findIndex_Some [OF i]
  let ?rest = "splice1 i ?cols"
  let ?cols' = "renumber ?rest"
  have len: "length ?rest = length ?cols - 1"
    using fi by (auto simp: splice1_def)
  have empty: "?cols' = [] \<longleftrightarrow> length ?cols = 1"
    using fi len by (auto simp: renumber_Nil)
  obtain saved s' where ps: "project_save newId (p\<lparr>p_boardColumns := ?cols'\<rparr>) s = (saved, s')"
    by (cases "project_save newId (p\<lparr>p_boardColumns := ?cols'\<rparr>) s")
  note r = project_save_result [OF assms ps]
  have run: "removeBoardColumn newId (GoodId pid) columnId s = (Inr (p_boardColumns saved), s')"
    using assms i ps by (simp add: removeBoardColumn_def)
  have "i < length ?cols \<and> c_id (?cols ! i) = columnId
        \<and> (\<forall>j<i. c_id (?cols ! j) \<noteq> columnId)
        \<and> map c_id ?cols' = map c_id (take i ?cols @ drop (Suc i) ?cols)
        \<and> map c_name ?cols' = map c_name (take i ?cols @ drop (Suc i) ?cols)
        \<and> map c_order ?cols' = [0..<length ?cols - 1]
        \<and> fst (removeBoardColumn newId (GoodId pid) columnId s) =
            Inr (if length ?cols = 1 then default_boardColumns newId else ?cols')
        \<and> findProject (snd (removeBoardColumn newId (GoodId pid) columnId s)) pid =
            Some (p\<lparr>p_boardColumns :=
              (if length ?cols = 1 then default_boardColumns newId else ?cols')\<rparr>)"
    using fi r run empty len
    by (simp add: renumber_ids renumber_names renumber_orders splice1_def)
  then show "\<exists>i cols'.
      i < length ?cols \<and> c_id (?cols ! i) = columnId
      \<and> (\<forall>j<i. c_id (?cols ! j) \<noteq> columnId)
      \<and> map c_id cols' = map c_id (take i ?cols @ drop (Suc i) ?cols)
      \<and> map c_name cols' = map c_name (take i ?cols @ drop (Suc i) ?cols)
      \<and> map c_order cols' = [0..<length ?cols - 1]
      \<and> fst (removeBoardColumn newId (GoodId pid) columnId s) =
          Inr (if length ?cols = 1 then default_boardColumns newId else cols')
      \<and> findProject (snd (removeBoardColumn newId (GoodId pid) columnId s)) pid =
          Some (p\<lparr>p_boardColumns :=
            (if length ?cols = 1 then default_boardColumns newId else cols')\<rparr>)"
    by blast
qed

text \<open>
  The theorem at project 1 with its four default columns: the id 999 is not found; removing
  column 101 leaves columns 100, 102, 103 with orders 0, 1, 2.
\<close>

theorem removeBoardColumn_renumbers_witness:
  "findProject ex_store 1 = Some (mk_project 1 (default_boardColumns (\<lambda>k. 100 + k)) 0 (2 * DAY))
   \<and> 999 \<notin> c_id ` set (default_boardColumns (\<lambda>k. 100 + k))
   \<and> 101 \<in> c_id ` set (default_boardColumns (\<lambda>k. 100 + k))
   \<and> removeBoardColumn (\<lambda>k. 300 + k) (GoodId 1) 999 ex_store =
       (Inl (HttpError 404 ''Column not found''), ex_store)
   \<and> (\<exists>cols'. map c_order cols' = [0..<3]
         \<and> fst (removeBoardColumn (\<lambda>k. 300 + k) (GoodId 1) 101 ex_store) = Inr cols')
   \<and> fst (removeBoardColumn (\<lambda>k. 300 + k) (GoodId 1) 101 ex_store) =
       Inr [\<lparr>c_id = 100, c_name = ''To Do'', c_order = 0\<rparr>,
            \<lparr>c_id = 102, c_name = ''In Review'', c_order = 1\<rparr>,
            \<lparr>c_id = 103, c_name = ''Done'', c_order = 2\<rparr>]"
proof -
  let ?p = "mk_project 1 (default_boardColumns (\<lambda>k. 100 + k)) 0 (2 * DAY)"
  have p: "findProject ex_store 1 = Some ?p"
    by (simp add: ex_defs)
  have cols: "p_boardColumns ?p = default_boardColumns (\<lambda>k. 100 + k)"
    by (simp add: mk_project_def)
  have a: "999 \<notin> c_id ` set (default_boardColumns (\<lambda>k. 100 + k))"
    by (simp add: ex_defs)
  have b: "101 \<in> c_id ` set (default_boardColumns (\<lambda>k. 100 + k))"
    by (simp add: ex_defs)
  have len: "length (default_boardColumns (\<lambda>k. 100 + k)) = 4"
    by (simp add: ex_defs)
  from removeBoardColumn_renumbers [OF p, of 999 "\<lambda>k. 300 + k"] a cols
  have c1: "removeBoardColumn (\<lambda>k. 300 + k) (GoodId 1) 999 ex_store =
       (Inl (HttpError 404 ''Column not found''), ex_store)"
    by simp
  from removeBoardColumn_renumbers [OF p, of 101 "\<lambda>k. 300 + k"] b cols len
  have c2: "\<exists>cols'. map c_order cols' = [0..<3]
         \<and> fst (removeBoardColumn (\<lambda>k. 300 + k) (GoodId 1) 101 ex_store) = Inr cols'"
    by auto
  have c3: "fst (removeBoardColumn (\<lambda>k. 300 + k) (GoodId 1) 101 ex_store) =
       Inr [\<lparr>c_id = 100, c_name = ''To Do'', c_order = 0\<rparr>,
            \<lparr>c_id = 102, c_name = ''In Review'', c_order = 1\<rparr>,
            \<lparr>c_id = 103, c_name = ''Done'', c_order = 2\<rparr>]"
    by (simp add: removeBoardColumn_def project_save_def boardColumns_hook_def renumber_def
          splice1_def ex_defs Let_def)
  from p a b c1 c2 c3 show ?thesis by blast
qed

text \<open>
  The claim as stated fails when the project has a single column: removing it does not
  leave the empty list but the four default columns, in the answer and in the store.
\<close>

theorem removeBoardColumn_last_counterexample:
  "fst (removeBoardColumn (\<lambda>k. 300 + k) (GoodId 1) 7 one_column_store) =
     Inr (default_boardColumns (\<lambda>k. 300 + k))
   \<and> map_option p_boardColumns
        (findProject (snd (removeBoardColumn (\<lambda>k. 300 + k) (GoodId 1) 7 one_column_store)) 1) =
     Some (default_boardColumns (\<lambda>k. 300 + k))
   \<and> length (default_boardColumns (\<lambda>k. 300 + k)) = 4"
  by (simp add: removeBoardColumn_def project_save_def boardColumns_hook_def renumber_def
        splice1_def one_column_store_def ex_defs Let_def)

section \<open>Task names are unique within a project\<close>

lemma unique_index_names_differ:
  assumes "unique_index ts" "t \<in> set ts" "u \<in> set ts" "t_id t \<noteq> t_id u"
    "t_project t = t_project u"
  shows "t_name t \<noteq> t_name u"
proof
  assume "t_name t = t_name u"
  with assms(5) have "task_key t = task_key u" by (simp add: task_key_def)
  moreover from assms(1) have "inj_on task_key (set ts)"
    by (simp add: unique_index_def distinct_map)
  ultimately have "t = u" using assms(2,3) by (auto dest: inj_onD)
  with assms(4) show False by simp
qed

lemma insertTask_unique:
  assumes "insertTask t s = Inr s'" and "unique_index (st_tasks s)"
  shows "unique_index (st_tasks s')"
proof -
  from assms(1) have st: "st_tasks s' = st_tasks s @ [t]"
    and fresh: "\<forall>u \<in> set (st_tasks s). t_id u \<noteq> t_id t \<and> task_key u \<noteq> task_key t"
    by (auto simp: insertTask_def task_key_def list_ex_iff split: if_splits)
  from fresh have "t_id t \<notin> t_id ` set (st_tasks s)" "task_key t \<notin> task_key ` set (st_tasks s)"
    by force+
  with assms(2) show ?thesis
    by (simp add: st unique_index_def)
qed

lemma replace_ids:
  "map t_id (map (\<lambda>u. if t_id u = t_id t then t else u) ts) = map t_id ts"
  by (induction ts) auto

lemma replace_keys_distinct:
  assumes "distinct (map t_id ts)" and "distinct (map task_key ts)"
    and "\<forall>u \<in> set ts. t_id u \<noteq> t_id t \<longrightarrow> task_key u \<noteq> task_key t"
  shows "distinct (map task_key (map (\<lambda>u. if t_id u = t_id t then t else u) ts))"
  using assms
proof (induction ts)
  case Nil
  then show ?case by simp
next
  case (Cons u ts)
  let ?r = "\<lambda>u. if t_id u = t_id t then t else u"
  have IH: "distinct (map task_key (map ?r ts))"
    using Cons by simp
  show ?case
  proof (cases "t_id u = t_id t")
    case True
    from Cons.prems(1) have "t_id u \<notin> t_id ` set ts" by simp
    with True have other: "\<forall>v \<in> set ts. t_id v \<noteq> t_id t"
      by (metis imageI)
    then have same: "map ?r ts = ts"
      by (simp add: map_idI)
    from other Cons.prems(3) have "task_key t \<notin> task_key ` set ts"
      by auto
    with True same Cons.prems(2) show ?thesis
      by simp
  next
    case False
    with Cons.prems(3) have ne: "task_key u \<noteq> task_key t" by simp
    from Cons.prems(2) have old: "task_key u \<notin> task_key ` set ts" by simp
    have notin: "task_key u \<notin> set (map task_key (map ?r ts))"
    proof
      assume "task_key u \<in> set (map task_key (map ?r ts))"
      then obtain v where v: "v \<in> set ts" and k: "task_key u = task_key (?r v)"
        by auto
      show False
      proof (cases "t_id v = t_id t")
        case True
        with k ne show False by simp
      next
        case False
        with k have "task_key u = task_key v" by simp
        with v old show False by (metis imageI)
      qed
    qed
    have "map ?r (u # ts) = u # map ?r ts" using False by simp
    then show ?thesis
      using notin IH by (simp only: list.map distinct.simps simp_thms)
  qed
qed

lemma replaceTask_unique:
  assumes "replaceTask t s = Inr s'" and "unique_index (st_tasks s)"
  shows "unique_index (st_tasks s')"
proof -
  from assms(1) have st: "st_tasks s' = map (\<lambda>u. if t_id u = t_id t then t else u) (st_tasks s)"
    and nodup: "\<forall>u \<in> set (st_tasks s). t_id u \<noteq> t_id t \<longrightarrow> task_key u \<noteq> task_key t"
    by (auto simp: replaceTask_def task_key_def list_ex_iff split: if_splits)
  from assms(2) nodup show ?thesis
    unfolding st unique_index_def
    by (simp only: replace_ids replace_keys_distinct simp_thms)
qed

lemma sprint_updateMany_tasks: "st_tasks (sprint_updateMany P f s) = st_tasks s"
  by (simp add: sprint_updateMany_def)

lemma sprint_stats_hook_tasks: "st_tasks (snd (sprint_stats_hook now d t s)) = st_tasks s"
  by (simp add: sprint_stats_hook_def sprint_findByIdAndUpdate_def sprint_updateMany_tasks
        Let_def split: option.splits)

lemma sprint_cleared_hook_tasks: "st_tasks (sprint_cleared_hook d t s) = st_tasks s"
  by (simp add: sprint_cleared_hook_def sprint_updateMany_tasks)

lemma task_save_cases:
  "(\<exists>e. fst (task_save now d t s) = Inl e
        \<and> st_tasks (snd (task_save now d t s)) = st_tasks s)
   \<or> (\<exists>t3 s3 s4. st_tasks s3 = st_tasks s \<and> task_save now d t s = (Inr t3, s4)
        \<and> (if isNew d then insertTask t3 s3 else replaceTask t3 s3) = Inr s4)"
proof -
  obtain t2 s2 where h: "sprint_stats_hook now d (storyPoints_hook t) s = (t2, s2)"
    by (cases "sprint_stats_hook now d (storyPoints_hook t) s")
  then have s2: "st_tasks s2 = st_tasks s"
    using sprint_stats_hook_tasks [of now d "storyPoints_hook t" s] by simp
  show ?thesis
  proof (cases "validate_task t")
    case (Some e)
    then show ?thesis by (simp add: task_save_def)
  next
    case v: None
    show ?thesis
    proof (cases "status_hook d (storyPoints_hook t) s")
      case (Some e)
      with v show ?thesis by (simp add: task_save_def Let_def)
    next
      case st: None
      show ?thesis
      proof (cases "hierarchy_hook t2 s2")
        case (Inl e)
        with v st h s2 show ?thesis by (simp add: task_save_def Let_def)
      next
        case (Inr t3)
        let ?s3 = "sprint_cleared_hook d t3 s2"
        have s3: "st_tasks ?s3 = st_tasks s"
          using s2 by (simp add: sprint_cleared_hook_tasks)
        show ?thesis
        proof (cases "if isNew d then insertTask t3 ?s3 else replaceTask t3 ?s3")
          case (Inl e)
          with v st h Inr s3 have "fst (task_save now d t s) = Inl e
              \<and> st_tasks (snd (task_save now d t s)) = st_tasks s"
            by (simp add: task_save_def Let_def)
          then show ?thesis by blast
        next
          case w: (Inr s4)
          with v st h Inr have "task_save now d t s = (Inr t3, s4)"
            by (simp add: task_save_def Let_def)
          with s3 w show ?thesis by blast
        qed
      qed
    qed
  qed
qed

lemma task_save_unique:
  assumes "unique_index (st_tasks s)"
  shows "unique_index (st_tasks (snd (task_save now d t s)))"
  using task_save_cases [of now d t s] assms
  by (auto dest: insertTask_unique replaceTask_unique split: if_splits)

lemma task_save_key:
  assumes "fst (task_save now d t s) = Inr t'"
  shows "t_id t' = t_id t \<and> task_key t' = task_key t"
proof -
  have "task_save now d t s = (Inr t', snd (task_save now d t s))"
    using assms by (simp add: prod_eq_iff)
  note h = hierarchy_hook_fields [OF task_save_Inr [OF this]]
  from h(4) h(5) h(6) show ?thesis
    by (simp add: task_key_def sprint_stats_hook_def storyPoints_hook_fields Let_def
             split: option.splits)
qed

lemma task_save_duplicate:
  assumes "list_ex (\<lambda>u. task_key u = task_key t) (st_tasks s)"
  shows "(\<exists>e. fst (task_save now \<lparr>isNew = True, modStatus = ms, modSprint = mp\<rparr> t s) = Inl e)
         \<and> st_tasks (snd (task_save now \<lparr>isNew = True, modStatus = ms, modSprint = mp\<rparr> t s)) =
             st_tasks s"
proof -
  let ?d = "\<lparr>isNew = True, modStatus = ms, modSprint = mp\<rparr>"
  have no: "insertTask t3 s3 \<noteq> Inr s4"
    if "st_tasks s3 = st_tasks s" "task_key t3 = task_key t" for t3 s3 s4
    using that assms by (auto simp: insertTask_def task_key_def list_ex_iff)
  from task_save_cases [of now ?d t s] show ?thesis
  proof
    assume "\<exists>e. fst (task_save now ?d t s) = Inl e
               \<and> st_tasks (snd (task_save now ?d t s)) = st_tasks s"
    then show ?thesis by blast
  next
    assume "\<exists>t3 s3 s4. st_tasks s3 = st_tasks s \<and> task_save now ?d t s = (Inr t3, s4)
              \<and> (if isNew ?d then insertTask t3 s3 else replaceTask t3 s3) = Inr s4"
    then obtain t3 s3 s4 where s3: "st_tasks s3 = st_tasks s"
      and r: "task_save now ?d t s = (Inr t3, s4)" and w: "insertTask t3 s3 = Inr s4"
      by auto
    from r have "fst (task_save now ?d t s) = Inr t3" by simp
    from task_save_key [OF this] have "task_key t3 = task_key t" by simp
    from no [OF s3 this] w show ?thesis by blast
  qed
qed

lemma createTask_cases:
  obtains (early) e where "createTask now newId uid req s = (Inl e, s)"
  | (saved) st pid aid where "r_project req = GoodId pid"
      "st_tasks (snd (createTask now newId uid req s)) =
         st_tasks (snd (task_save now \<lparr>isNew = True, modStatus = True, modSprint = False\<rparr>
                          (new_task newId req st pid aid) s))"
      "\<And>e. fst (task_save now \<lparr>isNew = True, modStatus = True, modSprint = False\<rparr>
                          (new_task newId req st pid aid) s) = Inl e \<Longrightarrow>
            fst (createTask now newId uid req s) = Inl (respond_error e)"
proof (cases "\<exists>e. createTask now newId uid req s = (Inl e, s)")
  case True
  then show ?thesis using early by blast
next
  case False
  then obtain pid projectDoc aid where
    p: "r_project req = GoodId pid" "findProject s pid = Some projectDoc"
       "r_assignee req = GoodId aid" "r_name req \<noteq> []" "r_description req \<noteq> []"
       "aid \<in> set (st_users s)" "r_reporter req \<noteq> BadId" "parent_check req s = None"
    by (auto simp: createTask_def Let_def split: req_id.splits option.splits if_splits)
  let ?sv = "task_save now \<lparr>isNew = True, modStatus = True, modSprint = False\<rparr>
               (new_task newId req (create_status (r_status req) projectDoc) pid aid) s"
  have a: "st_tasks (snd (createTask now newId uid req s)) = st_tasks (snd ?sv)"
    using p
    by (auto simp: createTask_def Let_def activity_write_def
             split: prod.splits sum.splits option.splits if_splits)
  have b: "fst ?sv = Inl e \<Longrightarrow> fst (createTask now newId uid req s) = Inl (respond_error e)"
    for e
    using p
    by (auto simp: createTask_def Let_def split: prod.splits sum.splits)
  from p(1) a b show ?thesis by (rule saved)
qed

lemma createTask_unique:
  assumes "unique_index (st_tasks s)"
  shows "unique_index (st_tasks (snd (createTask now newId uid req s)))"
proof (cases rule: createTask_cases [of now newId uid req s])
  case (early e)
  with assms show ?thesis by simp
next
  case (saved st pid aid)
  with task_save_unique [OF assms] show ?thesis by simp
qed

lemma createTask_duplicate:
  assumes "list_ex (\<lambda>u. t_name u = r_name req \<and> GoodId (t_project u) = r_project req)
             (st_tasks s)"
  shows "\<exists>e s'. createTask now newId uid req s = (Inl e, s') \<and> st_tasks s' = st_tasks s"
proof (cases rule: createTask_cases [of now newId uid req s])
  case (early e)
  then show ?thesis by blast
next
  case (saved st pid aid)
  from assms saved(1) have "list_ex (\<lambda>u. task_key u = task_key (new_task newId req st pid aid))
                       (st_tasks s)"
    by (auto simp: list_ex_iff task_key_def new_task_def)
  from task_save_duplicate [OF this, of now True False]
  obtain e where e: "fst (task_save now \<lparr>isNew = True, modStatus = True, modSprint = False\<rparr>
                          (new_task newId req st pid aid) s) = Inl e"
    and st: "st_tasks (snd (task_save now \<lparr>isNew = True, modStatus = True, modSprint = False\<rparr>
                          (new_task newId req st pid aid) s)) = st_tasks s"
    by blast
  from saved(3) [OF e] saved(2) st
  have "createTask now newId uid req s =
          (Inl (respond_error e), snd (createTask now newId uid req s))
        \<and> st_tasks (snd (createTask now newId uid req s)) = st_tasks s"
    by (simp add: prod_eq_iff)
  then show ?thesis by blast
qed

lemma apply_updates_id: "t_id (fold apply_update upd t) = t_id t"
proof (induction upd arbitrary: t)
  case Nil
  then show ?case by simp
next
  case (Cons u upd)
  then show ?case by (cases u) simp_all
qed

lemma findTask_Some: "findTask s i = Some t \<Longrightarrow> t_id t = i \<and> t \<in> set (st_tasks s)"
  by (auto simp: findTask_def find_Some_iff)

lemma task_findByIdAndUpdate_unique:
  assumes "unique_index (st_tasks s)"
  shows "unique_index (st_tasks (snd (task_findByIdAndUpdate i upd s)))"
  using assms
  by (auto simp: task_findByIdAndUpdate_def Let_def dest: replaceTask_unique
           split: option.splits sum.splits)

lemma updateTask_unique:
  assumes "unique_index (st_tasks s)"
  shows "unique_index (st_tasks (snd (updateTask now rid uid upd s)))"
proof (cases rid)
  case (GoodId i)
  show ?thesis
  proof (cases "findTask s i")
    case None
    with GoodId assms show ?thesis by (simp add: updateTask_def)
  next
    case (Some existingTask)
    obtain r s1 where run: "task_findByIdAndUpdate i upd s = (r, s1)"
      by (cases "task_findByIdAndUpdate i upd s")
    with task_findByIdAndUpdate_unique [OF assms, of i upd] have "unique_index (st_tasks s1)"
      by simp
    with GoodId Some run show ?thesis
      by (auto simp: updateTask_def Let_def log_changes_tasks split: sum.splits option.splits)
  qed
qed (simp_all add: updateTask_def assms)

lemma updateTask_duplicate:
  assumes "findTask s i = Some t"
    and "list_ex (\<lambda>u. t_id u \<noteq> i \<and> task_key u = task_key (fold apply_update upd t))
           (st_tasks s)"
  shows "\<exists>e. updateTask now (GoodId i) uid upd s = (Inl e, s)"
proof -
  from findTask_Some [OF assms(1)] have i: "t_id t = i" and m: "t \<in> set (st_tasks s)"
    by simp_all
  have "replaceTask (fold apply_update upd t) s = Inl DuplicateKey"
    using assms(2) i m
    by (auto simp: replaceTask_def apply_updates_id list_ex_iff task_key_def)
  then have "\<exists>e. task_findByIdAndUpdate i upd s = (Inl e, s)"
    using assms(1) by (simp add: task_findByIdAndUpdate_def Let_def split: option.splits)
  with assms(1) show ?thesis
    by (auto simp: updateTask_def Let_def)
qed

lemma moveToSprint_unique:
  assumes "unique_index (st_tasks s)"
  shows "unique_index (st_tasks (snd (moveToSprint now tid sid s)))"
  using assms
  by (auto simp: moveToSprint_def Let_def sprint_updateMany_tasks sprint_findByIdAndUpdate_def
           intro!: task_save_unique split: option.splits)

lemma deleteTask_unique:
  assumes "unique_index (st_tasks s)"
  shows "unique_index (st_tasks (snd (deleteTask now rid uid s)))"
proof -
  have "st_tasks (snd (deleteTask now rid uid s)) = st_tasks s
        \<or> (\<exists>i. st_tasks (snd (deleteTask now rid uid s)) =
                 filter (\<lambda>t. t_id t \<noteq> i) (st_tasks s))"
    by (auto simp: deleteTask_def Let_def logActivity_tasks task_findByIdAndDelete_def
             split: req_id.splits option.splits)
  with assms show ?thesis
    by (auto simp: unique_index_def distinct_map_filter)
qed

text \<open>
  C10. In a task collection that satisfies its unique indexes, any two stored tasks with
  different ids and the same project have different names. \<open>createTask\<close>,
  \<open>updateTask\<close>, \<open>moveToSprint\<close> and \<open>deleteTask\<close> leave the collection in such a
  state. Creating a task whose name and project are those of a stored task fails and leaves
  the tasks as they were; updating a task to the name and project of another stored task
  fails and leaves the store as it was.
\<close>

theorem name_project_index_preserved:
  assumes "unique_index (st_tasks s)"
  shows "unique_index (st_tasks (snd (createTask now newId uid req s)))
       \<and> unique_index (st_tasks (snd (updateTask now rid uid upd s)))
       \<and> unique_index (st_tasks (snd (moveToSprint now tid sid s)))
       \<and> unique_index (st_tasks (snd (deleteTask now rid uid s)))
       \<and> (list_ex (\<lambda>u. t_name u = r_name req \<and> GoodId (t_project u) = r_project req)
             (st_tasks s) \<longrightarrow>
           (\<exists>e s'. createTask now newId uid req s = (Inl e, s') \<and> st_tasks s' = st_tasks s))
       \<and> (findTask s i = Some t
            \<and> list_ex (\<lambda>u. t_id u \<noteq> i \<and> task_key u = task_key (fold apply_update upd t))
                 (st_tasks s) \<longrightarrow>
           (\<exists>e. updateTask now (GoodId i) uid upd s = (Inl e, s)))
       \<and> (\<forall>a \<in> set (st_tasks s). \<forall>b \<in> set (st_tasks s).
             t_id a \<noteq> t_id b \<and> t_project a = t_project b \<longrightarrow> t_name a \<noteq> t_name b)"
  using assms
  by (intro conjI impI ballI createTask_unique updateTask_unique moveToSprint_unique
        deleteTask_unique createTask_duplicate)
     (auto intro: updateTask_duplicate dest: unique_index_names_differ)

text \<open>
  The theorem at the small project: creating a second epic keeps the indexes; creating a
  task named "Login" in project 1, and renaming epic 10 to "Login", both fail.
\<close>

theorem name_project_index_preserved_witness:
  "unique_index (st_tasks ex_store)
   \<and> unique_index (st_tasks (snd (createTask 5 12 None (epic_req\<lparr>r_parentTask := NoId\<rparr>) ex_store)))
   \<and> (\<exists>e s'. createTask 5 12 None (epic_req\<lparr>r_name := ''Login'', r_parentTask := NoId\<rparr>)
                 ex_store = (Inl e, s')
         \<and> st_tasks s' = st_tasks ex_store)
   \<and> (\<exists>e. updateTask 5 (GoodId 10) None [SetName ''Login''] ex_store = (Inl e, ex_store))"
proof -
  have u: "unique_index (st_tasks ex_store)"
    by (simp add: unique_index_def task_key_def ex_defs)
  have d1: "list_ex (\<lambda>u. t_name u = r_name (epic_req\<lparr>r_name := ''Login'', r_parentTask := NoId\<rparr>)
                        \<and> GoodId (t_project u) =
                            r_project (epic_req\<lparr>r_name := ''Login'', r_parentTask := NoId\<rparr>))
              (st_tasks ex_store)"
    by (simp add: epic_req_def ex_defs)
  have d2: "findTask ex_store 10 = Some (mk_task 10 ''Release'' Epic ''To Do'' 1)
            \<and> list_ex (\<lambda>u. t_id u \<noteq> 10 \<and> task_key u = task_key
                   (fold apply_update [SetName ''Login''] (mk_task 10 ''Release'' Epic ''To Do'' 1)))
                 (st_tasks ex_store)"
    by (simp add: task_key_def ex_defs)
  from name_project_index_preserved [OF u, of 5 12 None "epic_req\<lparr>r_parentTask := NoId\<rparr>"]
  have c1: "unique_index (st_tasks (snd (createTask 5 12 None
              (epic_req\<lparr>r_parentTask := NoId\<rparr>) ex_store)))"
    by blast
  from name_project_index_preserved
         [OF u, of 5 12 None "epic_req\<lparr>r_name := ''Login'', r_parentTask := NoId\<rparr>"] d1
  have c2: "\<exists>e s'. createTask 5 12 None (epic_req\<lparr>r_name := ''Login'', r_parentTask := NoId\<rparr>)
                 ex_store = (Inl e, s')
         \<and> st_tasks s' = st_tasks ex_store"
    by blast
  from name_project_index_preserved
         [OF u, where i = 10 and t = "mk_task 10 ''Release'' Epic ''To Do'' 1"
            and upd = "[SetName ''Login'']" and now = 5 and uid = None] d2
  have c3: "\<exists>e. updateTask 5 (GoodId 10) None [SetName ''Login''] ex_store = (Inl e, ex_store)"
    by blast
  from u c1 c2 c3 show ?thesis by blast
qed

section \<open>Logging failures do not stop the mutation\<close>

lemma updateTask_succeeds:
  assumes "findTask s i = Some t" and "validate_updates upd = None"
    and "\<not> list_ex (\<lambda>u. t_id u \<noteq> i \<and> task_key u = task_key (fold apply_update upd t))
              (st_tasks s)"
  shows "fst (updateTask now (GoodId i) uid upd s) = Inr (fold apply_update upd t)
         \<and> findTask (snd (updateTask now (GoodId i) uid upd s)) i = Some (fold apply_update upd t)"
proof -
  let ?t' = "fold apply_update upd t"
  from findTask_Some [OF assms(1)] have i: "t_id t = i" and m: "t \<in> set (st_tasks s)"
    by simp_all
  have id': "t_id ?t' = i" using i by (simp add: apply_updates_id)
  have ex: "list_ex (\<lambda>u. t_id u = t_id ?t') (st_tasks s)"
    using m i id' by (auto simp: list_ex_iff)
  have nodup: "\<not> list_ex (\<lambda>u. t_id u \<noteq> t_id ?t' \<and> t_name u = t_name ?t'
                              \<and> t_project u = t_project ?t') (st_tasks s)"
    using assms(3) id' by (auto simp: list_ex_iff task_key_def)
  let ?s1 = "s\<lparr>st_tasks := map (\<lambda>u. if t_id u = t_id ?t' then ?t' else u) (st_tasks s)\<rparr>"
  have w: "replaceTask ?t' s = Inr ?s1"
    using ex nodup by (simp add: replaceTask_def)
  have q: "task_findByIdAndUpdate i upd s = (Inr (Some ?t'), ?s1)"
    using assms(1,2) w by (simp add: task_findByIdAndUpdate_def Let_def)
  have run: "updateTask now (GoodId i) uid upd s =
               (Inr ?t', log_changes now (case uid of Some u \<Rightarrow> u | None \<Rightarrow> t_assignee t) t
                           (changed_fields t upd) ?s1)"
    using assms(1) q by (simp add: updateTask_def Let_def)
  have "findTask ?s1 (t_id ?t') = Some ?t'"
    using ex by (simp add: findTask_def find_replaced)
  then have "findTask (snd (updateTask now (GoodId i) uid upd s)) i = Some ?t'"
    using id' by (simp add: run findTask_def log_changes_tasks)
  with run show ?thesis by simp
qed

lemma deleteTask_succeeds:
  assumes "findTask s i = Some t"
    and "find (\<lambda>u. t_parentTask u = Some i) (st_tasks s) = None"
  shows "fst (deleteTask now (GoodId i) uid s) = Inr ''Task deleted successfully''
         \<and> findTask (snd (deleteTask now (GoodId i) uid s)) i = None"
proof -
  have run: "deleteTask now (GoodId i) uid s =
               (Inr ''Task deleted successfully'',
                snd (logActivity now uid ''deleted'' i (t_project t) None None None None
                       (task_findByIdAndDelete i s)))"
    using assms by (simp add: deleteTask_def Let_def)
  have "find (\<lambda>u. t_id u = i) (filter (\<lambda>u. t_id u \<noteq> i) (st_tasks s)) = None"
    by (simp add: find_None_iff)
  then have "findTask (snd (deleteTask now (GoodId i) uid s)) i = None"
    by (simp add: run findTask_def logActivity_tasks task_findByIdAndDelete_def)
  with run show ?thesis by simp
qed

text \<open>
  C9. \<open>logActivity\<close> returns a boolean and never raises: for every input it returns
  \<open>True\<close> and appends the entry when the entry is valid and the write succeeds, and
  returns \<open>False\<close> and leaves the store as it was otherwise. In every store, whatever
  its log writes throw: an update of a stored task that passes the update validators and
  the unique index answers with the updated task, which is then the stored one; and the
  deletion of a stored task that no task has as parent answers success and leaves no task
  with that id. The answers and the stored tasks of \<open>updateTask\<close> and \<open>deleteTask\<close> do
  not depend on what the log writes throw.
\<close>

theorem logActivity_failure_contained:
  "logActivity now u act tid pid d f ov nv s =
     (if u \<noteq> None \<and> act \<in> set activity_actions
         \<and> st_activity_fault s
             \<lparr>a_user = u, a_action = act, a_taskId = tid, a_project = pid, a_details = d,
              a_fieldChanged = f, a_oldValue = ov, a_newValue = nv, a_timestamp = now\<rparr> = None
      then (True, s\<lparr>st_activities := st_activities s @
              [\<lparr>a_user = u, a_action = act, a_taskId = tid, a_project = pid, a_details = d,
                a_fieldChanged = f, a_oldValue = ov, a_newValue = nv, a_timestamp = now\<rparr>]\<rparr>)
      else (False, s))
   \<and> (findTask s i = Some t \<and> validate_updates upd = None
        \<and> \<not> list_ex (\<lambda>x. t_id x \<noteq> i \<and> task_key x = task_key (fold apply_update upd t))
               (st_tasks s) \<longrightarrow>
       fst (updateTask now (GoodId i) uid upd s) = Inr (fold apply_update upd t)
       \<and> findTask (snd (updateTask now (GoodId i) uid upd s)) i =
           Some (fold apply_update upd t))
   \<and> (findTask s i = Some t \<and> find (\<lambda>x. t_parentTask x = Some i) (st_tasks s) = None \<longrightarrow>
       fst (deleteTask now (GoodId i) uid s) = Inr ''Task deleted successfully''
       \<and> findTask (snd (deleteTask now (GoodId i) uid s)) i = None)
   \<and> fst (updateTask now rid uid upd (s\<lparr>st_activity_fault := fault\<rparr>)) =
       fst (updateTask now rid uid upd s)
   \<and> st_tasks (snd (updateTask now rid uid upd (s\<lparr>st_activity_fault := fault\<rparr>))) =
       st_tasks (snd (updateTask now rid uid upd s))
   \<and> fst (deleteTask now rid uid (s\<lparr>st_activity_fault := fault\<rparr>)) = fst (deleteTask now rid uid s)
   \<and> st_tasks (snd (deleteTask now rid uid (s\<lparr>st_activity_fault := fault\<rparr>))) =
       st_tasks (snd (deleteTask now rid uid s))"
proof -
  have log: "logActivity now u act tid pid d f ov nv s =
     (if u \<noteq> None \<and> act \<in> set activity_actions
         \<and> st_activity_fault s
             \<lparr>a_user = u, a_action = act, a_taskId = tid, a_project = pid, a_details = d,
              a_fieldChanged = f, a_oldValue = ov, a_newValue = nv, a_timestamp = now\<rparr> = None
      then (True, s\<lparr>st_activities := st_activities s @
              [\<lparr>a_user = u, a_action = act, a_taskId = tid, a_project = pid, a_details = d,
                a_fieldChanged = f, a_oldValue = ov, a_newValue = nv, a_timestamp = now\<rparr>]\<rparr>)
      else (False, s))"
    by (auto simp: logActivity_def activity_write_def validate_activity_def Let_def
             split: option.splits)
  have upd: "fst (updateTask now rid uid upd (s\<lparr>st_activity_fault := fault\<rparr>)) =
               fst (updateTask now rid uid upd s)
             \<and> st_tasks (snd (updateTask now rid uid upd (s\<lparr>st_activity_fault := fault\<rparr>))) =
               st_tasks (snd (updateTask now rid uid upd s))"
    by (auto simp: updateTask_def task_findByIdAndUpdate_oracle findTask_def log_changes_tasks
             Let_def split: req_id.splits option.splits sum.splits prod.splits)
  have del: "fst (deleteTask now rid uid (s\<lparr>st_activity_fault := fault\<rparr>)) =
               fst (deleteTask now rid uid s)
             \<and> st_tasks (snd (deleteTask now rid uid (s\<lparr>st_activity_fault := fault\<rparr>))) =
               st_tasks (snd (deleteTask now rid uid s))"
    by (simp add: deleteTask_def findTask_def logActivity_tasks task_findByIdAndDelete_def
             Let_def split: req_id.splits option.splits)
  from log upd del updateTask_succeeds [of s i t upd now uid] deleteTask_succeeds [of s i t now uid]
  show ?thesis by blast
qed

text \<open>
  The theorem on the store that refuses every log write: \<open>logActivity\<close> answers
  \<open>False\<close>, the update of task 11 to "Done" succeeds and is stored with nothing logged,
  and the deletion of task 11 succeeds.
\<close>

theorem logActivity_failure_contained_witness:
  "logActivity 5 (Some 50) ''deleted'' 11 1 None None None None failing_log_store =
     (False, failing_log_store)
   \<and> findTask failing_log_store 11 = Some (mk_task 11 ''Login'' Task ''To Do'' 1)
   \<and> validate_updates [SetStatus ''Done''] = None
   \<and> fst (updateTask 5 (GoodId 11) None [SetStatus ''Done''] failing_log_store) =
       Inr ((mk_task 11 ''Login'' Task ''To Do'' 1)\<lparr>t_status := ''Done''\<rparr>)
   \<and> findTask (snd (updateTask 5 (GoodId 11) None [SetStatus ''Done''] failing_log_store)) 11 =
       Some ((mk_task 11 ''Login'' Task ''To Do'' 1)\<lparr>t_status := ''Done''\<rparr>)
   \<and> st_activities (snd (updateTask 5 (GoodId 11) None [SetStatus ''Done''] failing_log_store)) = []
   \<and> find (\<lambda>x. t_parentTask x = Some 11) (st_tasks failing_log_store) = None
   \<and> fst (deleteTask 5 (GoodId 11) None failing_log_store) = Inr ''Task deleted successfully''
   \<and> findTask (snd (deleteTask 5 (GoodId 11) None failing_log_store)) 11 = None"
proof -
  let ?t = "mk_task 11 ''Login'' Task ''To Do'' 1"
  have f: "findTask failing_log_store 11 = Some ?t"
    by (simp add: failing_log_store_def ex_defs)
  have v: "validate_updates [SetStatus ''Done''] = None"
    by simp
  have n: "\<not> list_ex (\<lambda>x. t_id x \<noteq> 11
                \<and> task_key x = task_key (fold apply_update [SetStatus ''Done''] ?t))
              (st_tasks failing_log_store)"
    by (simp add: failing_log_store_def task_key_def ex_defs)
  have c: "find (\<lambda>x. t_parentTask x = Some 11) (st_tasks failing_log_store) = None"
    by (simp add: failing_log_store_def ex_defs)
  have l: "logActivity 5 (Some 50) ''deleted'' 11 1 None None None None failing_log_store =
             (False, failing_log_store)"
    using logActivity_failure_contained
            [of 5 "Some 50" "''deleted''" 11 1 None None None None failing_log_store]
    by (simp add: failing_log_store_def)
  have u: "fst (updateTask 5 (GoodId 11) None [SetStatus ''Done''] failing_log_store) =
             Inr (?t\<lparr>t_status := ''Done''\<rparr>)
           \<and> findTask (snd (updateTask 5 (GoodId 11) None [SetStatus ''Done''] failing_log_store)) 11
               = Some (?t\<lparr>t_status := ''Done''\<rparr>)"
    using logActivity_failure_contained
            [where s = failing_log_store and i = 11 and t = ?t and upd = "[SetStatus ''Done'']"
               and now = 5 and uid = None] f v n
    by simp
  have a: "st_activities (snd (updateTask 5 (GoodId 11) None [SetStatus ''Done'']
             failing_log_store)) = []"
    by (simp add: updateTask_def task_findByIdAndUpdate_def changed_fields_def replaceTask_def
          failing_log_store_def ex_defs log_defs Let_def)
  have dl: "fst (deleteTask 5 (GoodId 11) None failing_log_store) = Inr ''Task deleted successfully''
            \<and> findTask (snd (deleteTask 5 (GoodId 11) None failing_log_store)) 11 = None"
    using logActivity_failure_contained
            [where s = failing_log_store and i = 11 and t = ?t and now = 5 and uid = None] f c
    by simp
  from l f v u a c dl show ?thesis by simp
qed


section \<open>What the burndown loop answers\<close>

lemma abs_points_Nil [simp]: "abs_points [] = 0"
  by (simp add: abs_points_def)

lemma abs_points_Cons [simp]: "abs_points (t # ts) = \<bar>t_storyPoints t\<bar> + abs_points ts"
  by (simp add: abs_points_def)

lemma abs_points_nonneg: "0 \<le> abs_points ts"
  by (induction ts) simp_all

lemma abs_points_filter: "abs_points (filter P ts) \<le> abs_points ts"
  by (induction ts) (auto simp: add_increasing)

lemma sum_filter_bound:
  "\<bar>sum_list (map t_storyPoints (filter P ts))\<bar> \<le> abs_points ts"
  by (induction ts) auto

lemma sum_rest_bound:
  "\<bar>sum_list (map t_storyPoints ts) - sum_list (map t_storyPoints (filter P ts))\<bar>
     \<le> abs_points ts"
  by (induction ts) auto

lemma js_add_exact:
  "\<bar>x\<bar> \<le> 9007199254740992 \<Longrightarrow> \<bar>y\<bar> \<le> 9007199254740992 \<Longrightarrow> \<bar>x + y\<bar> \<le> 9007199254740992
     \<Longrightarrow> js_add (Exact x) (Exact y) = Exact (x + y)"
  by (simp add: js_add_def safe_int_def abs_le_iff)

lemma js_sub_exact:
  "\<bar>x\<bar> \<le> 9007199254740992 \<Longrightarrow> \<bar>y\<bar> \<le> 9007199254740992 \<Longrightarrow> \<bar>x - y\<bar> \<le> 9007199254740992
     \<Longrightarrow> js_sub (Exact x) (Exact y) = Exact (x - y)"
  by (simp add: js_sub_def safe_int_def abs_le_iff)

lemma foldl_points:
  "\<bar>a\<bar> + abs_points ts \<le> 9007199254740992 \<Longrightarrow>
     foldl (\<lambda>sum task. js_add sum (Exact (t_storyPoints task))) (Exact a) ts
       = Exact (a + sum_list (map t_storyPoints ts))"
proof (induction ts arbitrary: a)
  case Nil
  show ?case by simp
next
  case (Cons t ts)
  have nn: "0 \<le> abs_points ts" by (rule abs_points_nonneg)
  have step: "js_add (Exact a) (Exact (t_storyPoints t)) = Exact (a + t_storyPoints t)"
    using Cons.prems nn by (intro js_add_exact) simp_all
  have "\<bar>a + t_storyPoints t\<bar> + abs_points ts \<le> 9007199254740992"
    using Cons.prems by simp
  from Cons.IH [OF this] show ?case
    by (simp add: step add.assoc)
qed

lemma points_in_Nil [simp]: "points_in [] lo hi = 0"
  by (simp add: points_in_def)

lemma points_in_Cons [simp]:
  "points_in (t # cs) lo hi =
     (if completed_between lo hi t then t_storyPoints t else 0) + points_in cs lo hi"
  by (simp add: points_in_def)

lemma points_in_bound: "\<bar>points_in cs lo hi\<bar> \<le> abs_points cs"
  unfolding points_in_def by (rule sum_filter_bound)

lemma points_in_empty: "hi < lo \<Longrightarrow> points_in cs lo hi = 0"
  by (induction cs) (auto simp: completed_between_def split: option.splits)

lemma points_in_split:
  "lo \<le> hi \<Longrightarrow> points_in cs lo hi = points_in cs lo lo + points_in cs (lo + 1) hi"
  by (induction cs) (auto simp: completed_between_def split: option.splits)

text \<open>
  The map of points by day holds, at every day it has an entry for, the exact sum of the
  points completed on that day, as long as the magnitudes of the points sum to at most
  \<open>2^53\<close>.
\<close>

lemma add_points_sums:
  assumes "holds_sums m g"
    and "\<forall>k. \<bar>g k\<bar> + \<bar>t_storyPoints t\<bar> \<le> 9007199254740992"
  shows "holds_sums (add_points t m)
           (\<lambda>k. g k + (if completed_between k k t then t_storyPoints t else 0))"
proof (cases "t_completedAt t")
  case None
  with assms(1) show ?thesis
    by (simp add: add_points_def completed_between_def)
next
  case (Some c)
  from assms(1) have "(m (dateKey c) = None \<and> g (dateKey c) = 0)
                       \<or> m (dateKey c) = Some (Exact (g (dateKey c)))"
    unfolding holds_sums_def by blast
  then have z: "or_zero (m (dateKey c)) = Exact (g (dateKey c))"
    by (auto simp: or_zero_def)
  have b: "\<bar>g (dateKey c)\<bar> + \<bar>t_storyPoints t\<bar> \<le> 9007199254740992"
    using assms(2) by blast
  have "js_add (Exact (g (dateKey c))) (Exact (t_storyPoints t))
          = Exact (g (dateKey c) + t_storyPoints t)"
    using b by (intro js_add_exact) simp_all
  with z have v: "add_points t m = m(dateKey c \<mapsto> Exact (g (dateKey c) + t_storyPoints t))"
    using Some by (simp add: add_points_def)
  show ?thesis
    unfolding v holds_sums_def
  proof
    fix k
    show "((m(dateKey c \<mapsto> Exact (g (dateKey c) + t_storyPoints t))) k = None
             \<and> g k + (if completed_between k k t then t_storyPoints t else 0) = 0)
          \<or> (m(dateKey c \<mapsto> Exact (g (dateKey c) + t_storyPoints t))) k
              = Some (Exact (g k + (if completed_between k k t then t_storyPoints t else 0)))"
      using assms(1) Some by (auto simp: holds_sums_def completed_between_def)
  qed
qed

lemma fold_add_points:
  "holds_sums m g \<Longrightarrow> \<forall>k. \<bar>g k\<bar> + abs_points cs \<le> 9007199254740992 \<Longrightarrow>
     holds_sums (fold add_points cs m) (\<lambda>k. g k + points_in cs k k)"
proof (induction cs arbitrary: m g)
  case Nil
  then show ?case by simp
next
  case (Cons t cs)
  have nn: "0 \<le> abs_points cs" by (rule abs_points_nonneg)
  let ?g = "\<lambda>k. g k + (if completed_between k k t then t_storyPoints t else 0)"
  have one: "holds_sums (add_points t m) ?g"
  proof (rule add_points_sums [OF Cons.prems(1)])
    show "\<forall>k. \<bar>g k\<bar> + \<bar>t_storyPoints t\<bar> \<le> 9007199254740992"
    proof
      fix k
      from Cons.prems(2) have "\<bar>g k\<bar> + abs_points (t # cs) \<le> 9007199254740992" by blast
      with nn show "\<bar>g k\<bar> + \<bar>t_storyPoints t\<bar> \<le> 9007199254740992" by simp
    qed
  qed
  have bound: "\<forall>k. \<bar>?g k\<bar> + abs_points cs \<le> 9007199254740992"
  proof
    fix k
    from Cons.prems(2) have "\<bar>g k\<bar> + abs_points (t # cs) \<le> 9007199254740992" by blast
    then have "\<bar>g k\<bar> + \<bar>t_storyPoints t\<bar> + abs_points cs \<le> 9007199254740992" by simp
    moreover have "\<bar>g k + t_storyPoints t\<bar> \<le> \<bar>g k\<bar> + \<bar>t_storyPoints t\<bar>"
      by (rule abs_triangle_ineq)
    moreover have "0 \<le> \<bar>t_storyPoints t\<bar>" by simp
    ultimately show "\<bar>?g k\<bar> + abs_points cs \<le> 9007199254740992" by auto
  qed
  have "holds_sums (fold add_points cs (add_points t m)) (\<lambda>k. ?g k + points_in cs k k)"
    by (rule Cons.IH [OF one bound])
  moreover have "(\<lambda>k. ?g k + points_in cs k k) = (\<lambda>k. g k + points_in (t # cs) k k)"
    by (rule ext) simp
  ultimately show ?case by simp
qed

lemma group_points_sums:
  "abs_points cs \<le> 9007199254740992 \<Longrightarrow> holds_sums (group_points cs) (\<lambda>k. points_in cs k k)"
  using fold_add_points [of Map.empty "\<lambda>k. 0" cs]
  by (simp add: group_points_def holds_sums_def)

lemma subtract_day_value:
  assumes "abs_points cs \<le> 9007199254740992" and "\<bar>r\<bar> \<le> 9007199254740992"
    and "\<bar>r - points_in cs k k\<bar> \<le> 9007199254740992"
  shows "subtract_day (group_points cs k) (Exact r) = Exact (r - points_in cs k k)"
proof -
  have p: "\<bar>points_in cs k k\<bar> \<le> 9007199254740992"
    using points_in_bound [of cs k k] assms(1) by simp
  have s: "js_sub (Exact r) (Exact (points_in cs k k)) = Exact (r - points_in cs k k)"
    using assms(2) p assms(3) by (rule js_sub_exact)
  from group_points_sums [OF assms(1)]
  have "(group_points cs k = None \<and> points_in cs k k = 0)
        \<or> group_points cs k = Some (Exact (points_in cs k k))"
    by (simp add: holds_sums_def)
  then show ?thesis
    using s by (auto simp: subtract_day_def)
qed

lemma dateKey_next: "dateKey (c + DAY) = dateKey c + 1"
  by (simp add: dateKey_def DAY_def)

lemma series_length_step:
  "c \<le> e \<Longrightarrow> series_length c e = Suc (series_length (c + DAY) e)"
proof -
  assume le: "c \<le> e"
  show ?thesis
  proof (cases "c + DAY \<le> e")
    case True
    have "(e - c) div DAY = (e - (c + DAY)) div DAY + 1"
      by (simp add: DAY_def)
    moreover have "0 \<le> (e - (c + DAY)) div DAY"
      using True by (simp add: DAY_def)
    ultimately show ?thesis
      using le True by (simp add: series_length_def nat_add_distrib)
  next
    case False
    with le have "(e - c) div DAY = 0"
      by (simp add: DAY_def)
    with le False show ?thesis
      by (simp add: series_length_def)
  qed
qed

lemma setDate_nextDay_fixed:
  "localTZA_utc tz = (\<lambda>t. off) \<Longrightarrow> localTZA_local tz = (\<lambda>t. off) \<Longrightarrow>
     setDate_nextDay tz t = timeClip (t + DAY)"
  by (simp add: setDate_nextDay_def Let_def)

lemma series_map_step:
  "map f [0..<Suc n] = f 0 # map (\<lambda>j. f (Suc j)) [0..<n]"
  by (simp only: map_upt_Suc)

lemma burndown_loop_series:
  assumes tz: "localTZA_utc tz = (\<lambda>t. off)" "localTZA_local tz = (\<lambda>t. off)"
    and cs: "abs_points cs \<le> 9007199254740992"
    and e: "e \<le> maxTime"
  shows "- maxTime \<le> c \<Longrightarrow>
         \<forall>h. \<bar>r - points_in cs (dateKey c) h\<bar> \<le> 9007199254740992 \<Longrightarrow>
         burndown_loop tz (group_points cs) e c (Exact r) acc =
           Some (acc @ map (\<lambda>j. (dateKey c + int j,
                                  Exact (r - points_in cs (dateKey c) (dateKey c + int j))))
                         [0..<series_length c e])"
proof (induction "nat (e + 1 - c)" arbitrary: c r acc rule: less_induct)
  case less
  show ?case
  proof (cases "c \<le> e")
    case False
    then show ?thesis
      by (subst burndown_loop.simps) (simp add: series_length_def)
  next
    case True
    let ?d = "dateKey c"
    let ?r' = "r - points_in cs ?d ?d"
    let ?f = "\<lambda>j. (?d + int j, Exact (r - points_in cs ?d (?d + int j)))"
    have r: "\<bar>r\<bar> \<le> 9007199254740992"
      using less.prems(2) points_in_empty [of "?d - 1" ?d cs]
      by (metis diff_zero zle_diff1_eq order_refl less_le_not_le linorder_not_le)
    have r': "\<bar>?r'\<bar> \<le> 9007199254740992"
      using less.prems(2) by blast
    have sub: "subtract_day (group_points cs ?d) (Exact r) = Exact ?r'"
      by (rule subtract_day_value [OF cs r r'])
    have f0: "?f 0 = (?d, Exact ?r')" by simp
    show ?thesis
    proof (cases "c + DAY \<le> maxTime")
      case False
      then have clip: "setDate_nextDay tz c = None"
        by (simp add: setDate_nextDay_fixed [OF tz] timeClip_def)
      from False e have "\<not> c + DAY \<le> e" by simp
      then have len: "series_length c e = 1"
        using True by (simp add: series_length_step series_length_def)
      have "burndown_loop tz (group_points cs) e c (Exact r) acc = Some (acc @ [(?d, Exact ?r')])"
        using True by (subst burndown_loop.simps) (simp add: Let_def sub clip)
      then show ?thesis
        by (simp add: len)
    next
      case inrange: True
      have "- maxTime \<le> c + DAY"
        using less.prems(1) by (simp add: DAY_def)
      with inrange have clip: "setDate_nextDay tz c = Some (c + DAY)"
        by (simp add: setDate_nextDay_fixed [OF tz] timeClip_def)
      have unfold: "burndown_loop tz (group_points cs) e c (Exact r) acc =
                      burndown_loop tz (group_points cs) e (c + DAY) (Exact ?r')
                        (acc @ [(?d, Exact ?r')])"
        using True by (subst burndown_loop.simps) (simp add: Let_def sub clip)
      have smaller: "nat (e + 1 - (c + DAY)) < nat (e + 1 - c)"
        using True by (simp add: DAY_def)
      have lower: "- maxTime \<le> c + DAY"
        using less.prems(1) by (simp add: DAY_def)
      have bound: "\<forall>h. \<bar>?r' - points_in cs (dateKey (c + DAY)) h\<bar> \<le> 9007199254740992"
      proof
        fix h
        show "\<bar>?r' - points_in cs (dateKey (c + DAY)) h\<bar> \<le> 9007199254740992"
        proof (cases "?d + 1 \<le> h")
          case True
          then have "points_in cs ?d h = points_in cs ?d ?d + points_in cs (?d + 1) h"
            by (intro points_in_split) simp
          then have "?r' - points_in cs (?d + 1) h = r - points_in cs ?d h" by simp
          with less.prems(2) show ?thesis
            by (simp only: dateKey_next)
        next
          case False
          then have "points_in cs (?d + 1) h = 0"
            by (intro points_in_empty) simp
          with r' show ?thesis
            by (simp only: dateKey_next diff_zero)
        qed
      qed
      have IH: "burndown_loop tz (group_points cs) e (c + DAY) (Exact ?r') (acc @ [(?d, Exact ?r')]) =
                  Some ((acc @ [(?d, Exact ?r')]) @
                        map (\<lambda>j. (?d + 1 + int j,
                                   Exact (?r' - points_in cs (?d + 1) (?d + 1 + int j))))
                          [0..<series_length (c + DAY) e])"
        using less.hyps [OF smaller lower bound] by (simp only: dateKey_next)
      have tail: "(?d + 1 + int j, Exact (?r' - points_in cs (?d + 1) (?d + 1 + int j))) = ?f (Suc j)"
        for j
        using points_in_split [of ?d "?d + 1 + int j" cs] by (simp add: algebra_simps)
      have "map ?f [0..<series_length c e] =
              ?f 0 # map (\<lambda>j. ?f (Suc j)) [0..<series_length (c + DAY) e]"
        by (simp only: series_length_step [OF True] series_map_step)
      then show ?thesis
        unfolding unfold IH by (simp only: tail f0 append_assoc append_Cons append_Nil)
    qed
  qed
qed

lemma points_in_completedTasks:
  "points_in (filter (\<lambda>t. t_project t = pid \<and> t_status t = ''Done'' \<and> t_completedAt t \<noteq> None) ts)
     lo hi = points_done_between pid lo hi ts"
  by (induction ts) (auto simp: points_done_between_def completed_between_def)

lemma series_length_days:
  assumes "st mod DAY \<le> en mod DAY"
  shows "series_length st en = nat (dateKey en - dateKey st + 1)"
proof (cases "st \<le> en")
  case True
  have "en - st = DAY * (en div DAY - st div DAY) + (en mod DAY - st mod DAY)"
    by (simp add: algebra_simps)
  moreover have "0 \<le> en mod DAY - st mod DAY" using assms by simp
  moreover have "en mod DAY - st mod DAY < DAY"
    using pos_mod_bound [of DAY en] pos_mod_sign [of DAY st] by (simp add: DAY_def)
  ultimately have d: "(en - st) div DAY = en div DAY - st div DAY"
    by (rule int_div_pos_eq)
  have "st div DAY \<le> en div DAY"
    using True by (simp add: zdiv_mono1 DAY_def)
  then show ?thesis
    using True by (simp add: series_length_def d dateKey_def nat_add_distrib)
next
  case False
  then have "en div DAY \<le> st div DAY"
    by (simp add: zdiv_mono1 DAY_def)
  moreover have "en div DAY \<noteq> st div DAY"
  proof
    assume eq: "en div DAY = st div DAY"
    have "en = DAY * (en div DAY) + en mod DAY" "st = DAY * (st div DAY) + st mod DAY"
      by simp_all
    with eq assms have "st \<le> en" by (metis add_left_mono)
    with False show False by simp
  qed
  ultimately show ?thesis
    using False by (simp add: series_length_def dateKey_def)
qed

text \<open>
  C7 as the code has it. Take a stored project, loaded with a start date (the stored one, or
  the time of the request when the document has none) and an end date, the start not before
  the earliest and the end not after the latest valid date, on a server whose time zone keeps
  one offset from UTC, with integer story points whose magnitudes sum to at most \<open>2^53\<close>
  over the project's tasks. When the start's UTC time of day is not after the end's, the
  handler answers the project's total story points and a series with exactly one entry for
  each UTC day from the start's day to the end's day, both included, and none when the end's
  day is before the start's. Entry \<open>k\<close> is dated \<open>k\<close> days after the start's day and carries
  the total minus the points of the project's tasks with status "Done" whose completion day
  lies from the start's day up to that day. The value is not clamped at 0.
\<close>

theorem burndown_series:
  assumes "findProject s pid = Some p"
    and "loaded_date (Some now) (p_startDate p) = Some startDate"
    and "p_endDate p = IsDate endDate"
    and "- maxTime \<le> startDate" and "endDate \<le> maxTime"
    and "localTZA_utc tz = (\<lambda>t. off)" and "localTZA_local tz = (\<lambda>t. off)"
    and "startDate mod DAY \<le> endDate mod DAY"
    and "abs_points (filter (\<lambda>t. t_project t = pid) (st_tasks s)) \<le> 9007199254740992"
  shows "getBurndownData now tz (GoodId pid) s =
           Some (Inr (Exact (total_points pid (st_tasks s)),
                      map (\<lambda>k. (dateKey startDate + int k,
                                 Exact (total_points pid (st_tasks s)
                                          - points_done_between pid (dateKey startDate)
                                              (dateKey startDate + int k) (st_tasks s))))
                        [0..<nat (dateKey endDate - dateKey startDate + 1)]))"
proof -
  let ?ts = "filter (\<lambda>t. t_project t = pid) (st_tasks s)"
  let ?cs = "filter (\<lambda>t. t_project t = pid \<and> t_status t = ''Done'' \<and> t_completedAt t \<noteq> None)
               (st_tasks s)"
  let ?total = "total_points pid (st_tasks s)"
  have total: "foldl (\<lambda>sum task. js_add sum (Exact (t_storyPoints task))) (Exact 0) ?ts
                 = Exact ?total"
    using foldl_points [of 0 ?ts] assms(9) by (simp add: total_points_def)
  have "?cs = filter (\<lambda>t. t_status t = ''Done'' \<and> t_completedAt t \<noteq> None) ?ts"
    by (simp add: conj_commute)
  then have "abs_points ?cs \<le> abs_points ?ts"
    by (simp only: abs_points_filter)
  with assms(9) have cs: "abs_points ?cs \<le> 9007199254740992"
    by simp
  have bound: "\<forall>h. \<bar>?total - points_in ?cs (dateKey startDate) h\<bar> \<le> 9007199254740992"
  proof
    fix h
    have "points_in ?cs (dateKey startDate) h =
            sum_list (map t_storyPoints
              (filter (\<lambda>t. t_status t = ''Done'' \<and> completed_between (dateKey startDate) h t) ?ts))"
      by (simp only: points_in_completedTasks) (simp add: points_done_between_def)
    then have "\<bar>?total - points_in ?cs (dateKey startDate) h\<bar> \<le> abs_points ?ts"
      by (simp only: total_points_def sum_rest_bound)
    with assms(9) show "\<bar>?total - points_in ?cs (dateKey startDate) h\<bar> \<le> 9007199254740992"
      by simp
  qed
  have loop: "burndown_loop tz (group_points ?cs) endDate startDate (Exact ?total) [] =
                Some (map (\<lambda>j. (dateKey startDate + int j,
                                 Exact (?total - points_done_between pid (dateKey startDate)
                                                   (dateKey startDate + int j) (st_tasks s))))
                        [0..<nat (dateKey endDate - dateKey startDate + 1)])"
    using burndown_loop_series [OF assms(6) assms(7) cs assms(5) assms(4) bound, of "[]"]
    by (simp only: points_in_completedTasks series_length_days [OF assms(8)] append_Nil)
  have e: "loaded_date None (p_endDate p) = Some endDate"
    using assms(3) by (simp add: loaded_date_def)
  show ?thesis
    by (simp only: getBurndownData_def Let_def assms(1) assms(2) e total loop
          req_id.case option.case option.map)
qed

text \<open>
  The theorem at a project of three days whose total is negative, on a server in UTC: the
  series has three entries and its negative values are answered as they are.
\<close>

theorem burndown_series_witness:
  "findProject burn_store 1 = Some (mk_project 1 [] 0 (2 * DAY))
   \<and> loaded_date (Some 7) (p_startDate (mk_project 1 [] 0 (2 * DAY))) = Some 0
   \<and> p_endDate (mk_project 1 [] 0 (2 * DAY)) = IsDate (2 * DAY)
   \<and> - maxTime \<le> 0 \<and> 2 * DAY \<le> maxTime
   \<and> localTZA_utc utc = (\<lambda>t. 0) \<and> localTZA_local utc = (\<lambda>t. 0)
   \<and> 0 mod DAY \<le> (2 * DAY) mod DAY
   \<and> abs_points (filter (\<lambda>t. t_project t = 1) (st_tasks burn_store)) = 7
   \<and> getBurndownData 7 utc (GoodId 1) burn_store =
       Some (Inr (Exact (- 3), [(0, Exact (- 3)), (1, Exact (- 5)), (2, Exact (- 5))]))"
proof -
  have p: "findProject burn_store 1 = Some (mk_project 1 [] 0 (2 * DAY))"
    by (simp add: burn_store_def ex_defs)
  have a: "loaded_date (Some 7) (p_startDate (mk_project 1 [] 0 (2 * DAY))) = Some 0"
    and b: "p_endDate (mk_project 1 [] 0 (2 * DAY)) = IsDate (2 * DAY)"
    by (simp_all add: mk_project_def loaded_date_def)
  have lo: "- maxTime \<le> 0" and hi: "2 * DAY \<le> maxTime"
    by (simp_all add: maxTime_def DAY_def)
  have u: "localTZA_utc utc = (\<lambda>t. 0)" and l: "localTZA_local utc = (\<lambda>t. 0)"
    by (simp_all add: utc_def)
  have m: "0 mod DAY \<le> (2 * DAY) mod DAY"
    by (simp add: DAY_def)
  have ab: "abs_points (filter (\<lambda>t. t_project t = 1) (st_tasks burn_store)) = 7"
    by (simp add: abs_points_def burn_store_def ex_defs)
  have ab': "abs_points (filter (\<lambda>t. t_project t = 1) (st_tasks burn_store)) \<le> 9007199254740992"
    using ab by simp
  have run: "getBurndownData 7 utc (GoodId 1) burn_store =
               Some (Inr (Exact (total_points 1 (st_tasks burn_store)),
                      map (\<lambda>k. (dateKey 0 + int k,
                                 Exact (total_points 1 (st_tasks burn_store)
                                          - points_done_between 1 (dateKey 0)
                                              (dateKey 0 + int k) (st_tasks burn_store))))
                        [0..<nat (dateKey (2 * DAY) - dateKey 0 + 1)]))"
    by (rule burndown_series [OF p a b lo hi u l m ab'])
  have val: "Some (Inr (Exact (total_points 1 (st_tasks burn_store)),
                      map (\<lambda>k. (dateKey 0 + int k,
                                 Exact (total_points 1 (st_tasks burn_store)
                                          - points_done_between 1 (dateKey 0)
                                              (dateKey 0 + int k) (st_tasks burn_store))))
                        [0..<nat (dateKey (2 * DAY) - dateKey 0 + 1)]))
             = Some (Inr (Exact (- 3), [(0, Exact (- 3)), (1, Exact (- 5)), (2, Exact (- 5))])
                       :: http_error + jsnum \<times> (int \<times> jsnum) list)"
    by (simp add: total_points_def points_done_between_def completed_between_def dateKey_def
          DAY_def upt_rec burn_store_def ex_defs)
  have res: "getBurndownData 7 utc (GoodId 1) burn_store =
               Some (Inr (Exact (- 3), [(0, Exact (- 3)), (1, Exact (- 5)), (2, Exact (- 5))]))"
    using run val by (rule trans)
  from p a b lo hi u l m ab res show ?thesis
    by (simp only: simp_thms)
qed

text \<open>
  The claim as stated fails where a task was completed before the project's start: a task of
  2 points completed on day 5 is completed on or before day 10, and is not subtracted in a
  series that starts on day 10.
\<close>

theorem burndown_counterexample:
  "getBurndownData 0 utc (GoodId 1) early_store = Some (Inr (Exact 2, [(10, Exact 2)]))
   \<and> total_points 1 (st_tasks early_store) - points_done_by 1 10 (st_tasks early_store) = 0"
  by (simp add: getBurndownData_def group_points_def add_points_def subtract_day_def
        js_add_def js_sub_def safe_int_def or_zero_def loaded_date_def
        setDate_nextDay_def timeClip_def maxTime_def utc_def dateKey_def DAY_def
        total_points_def points_done_by_def
        burndown_loop.simps early_store_def ex_defs Let_def)

text \<open>
  Outside the conditions of the theorem the handler answers otherwise. A project that starts
  at noon of day 0 and ends at midnight of day 2 spans three calendar days and gets two
  entries: the end day has none, since the loop compares the time of day too.
\<close>

lemma burndown_end_day_dropped:
  "getBurndownData 0 utc (GoodId 2) early_store =
     Some (Inr (Exact 0, [(0, Exact 0), (1, Exact 0)]))
   \<and> dateKey (2 * DAY) - dateKey (DAY div 2) + 1 = 3"
  by (simp add: getBurndownData_def group_points_def add_points_def subtract_day_def
        js_add_def js_sub_def safe_int_def or_zero_def loaded_date_def
        setDate_nextDay_def timeClip_def maxTime_def utc_def dateKey_def DAY_def
        burndown_loop.simps early_store_def ex_defs Let_def)

text \<open>
  On a server whose clocks go back an hour during day 1, a project from 23:30 of day 0 to the
  end of day 2 gets no entry for day 1, and the points completed on that day are never
  subtracted; in UTC the same project gets its three entries.
\<close>

lemma burndown_clocks_back_skips_day:
  "getBurndownData 0 clocks_back (GoodId 1) night_store =
     Some (Inr (Exact 2, [(0, Exact 2), (2, Exact 2)]))
   \<and> getBurndownData 0 utc (GoodId 1) night_store =
     Some (Inr (Exact 2, [(0, Exact 2), (1, Exact 0), (2, Exact 0)]))"
  by (simp add: getBurndownData_def group_points_def add_points_def subtract_day_def
        js_add_def js_sub_def safe_int_def or_zero_def loaded_date_def
        setDate_nextDay_def timeClip_def maxTime_def utc_def clocks_back_def dateKey_def DAY_def
        burndown_loop.simps night_store_def ex_defs Let_def)

text \<open>
  A project document without a start date is loaded with the time of the request as its
  start date, and its series starts on that day.
\<close>

lemma burndown_default_startDate:
  "getBurndownData DAY utc (GoodId 2) night_store =
     Some (Inr (Exact 0, [(1, Exact 0), (2, Exact 0)]))"
  by (simp add: getBurndownData_def group_points_def add_points_def subtract_day_def
        js_add_def js_sub_def safe_int_def or_zero_def loaded_date_def
        setDate_nextDay_def timeClip_def maxTime_def utc_def dateKey_def DAY_def
        burndown_loop.simps night_store_def ex_defs Let_def)

text \<open>
  Story points beyond the exact range of the numbers are not followed: the total of two
  tasks of \<open>2^53\<close> points each is some number the model does not name.
\<close>

lemma js_add_inexact:
  "js_add (Exact 9007199254740992) (Exact 9007199254740992) = Inexact"
  by (simp add: js_add_def safe_int_def)


end
